theory Spec2Isabelle
  imports Main "HOL-Library.Sublist"
begin

section \<open>Python values and dictionaries\<close>

text \<open>
  The incident dictionaries of the monitor hold strings or \<open>None\<close> under string keys;
  the formatter also accepts a \<open>datetime\<close> object as a time stamp (its calendar fields
  down to the second are all the formatter reads).
  A dictionary is a partial map; \<open>d.get(k)\<close> gives \<open>None\<close> for a missing key and
  \<open>d.get(k, default)\<close> gives the default only when the key is missing (a key that is
  present with the value \<open>None\<close> gives \<open>None\<close>).
\<close>

record datetime =
  dt_year :: nat
  dt_month :: nat
  dt_day :: nat
  dt_hour :: nat
  dt_minute :: nat
  dt_second :: nat

datatype pyval = PyNone | PyStr string | PyDatetime datetime

type_synonym pydict = "string \<rightharpoonup> pyval"

definition dict_get :: "pydict \<Rightarrow> string \<Rightarrow> pyval" where
  "dict_get d k = (case d k of None \<Rightarrow> PyNone | Some v \<Rightarrow> v)"

definition dict_get_default :: "pydict \<Rightarrow> string \<Rightarrow> pyval \<Rightarrow> pyval" where
  "dict_get_default d k dflt = (case d k of None \<Rightarrow> dflt | Some v \<Rightarrow> v)"

text \<open>Truth value of a Python object: \<open>None\<close> and the empty string are false.\<close>

fun truthy :: "pyval \<Rightarrow> bool" where
  "truthy PyNone = False"
| "truthy (PyStr s) = (s \<noteq> [])"
| "truthy (PyDatetime d) = True"

text \<open>The exceptions that the modelled code raises or receives from its collaborators.\<close>

datatype error = TransportError | ParseError | AttributeError | NotImplementedError

section \<open>String operations\<close>

text \<open>
  A character of the model is a code point below 256, so the model speaks about text in
  ASCII and Latin-1. \<open>is_space\<close> lists the code points of that range for which
  \<open>str.isspace()\<close> holds, the no-break space \<open>U+00A0\<close> and the next-line control
  \<open>U+0085\<close> among them; \<open>str.strip()\<close> and the regular expression class \<open>\s\<close> both
  use it.
\<close>

definition is_space :: "char \<Rightarrow> bool" where
  "is_space c = (c \<in> set [CHR 0x09, CHR 0x0A, CHR 0x0B, CHR 0x0C, CHR 0x0D,
                           CHR 0x1C, CHR 0x1D, CHR 0x1E, CHR 0x1F, CHR 0x20,
                           CHR 0x85, CHR 0xA0])"

definition strip :: "string \<Rightarrow> string" where
  "strip s = rev (dropWhile is_space (rev (dropWhile is_space s)))"

text \<open>\<open>p in s\<close> for strings: \<open>p\<close> occurs as a contiguous piece of \<open>s\<close>.\<close>

fun contains :: "string \<Rightarrow> string \<Rightarrow> bool" where
  "contains p [] = (p = [])"
| "contains p (c # cs) = (prefix p (c # cs) \<or> contains p cs)"

text \<open>
  \<open>s.split(sep, 1)\<close> for a non-empty separator: the text before the leftmost occurrence
  of \<open>sep\<close> and the text after it, or \<open>[s]\<close> when \<open>sep\<close> does not occur.
\<close>

fun split_once :: "string \<Rightarrow> string \<Rightarrow> string list" where
  "split_once sep [] = [[]]"
| "split_once sep (c # cs) =
     (if prefix sep (c # cs) then [[], drop (length sep) (c # cs)]
      else (case split_once sep cs of
              w # rest \<Rightarrow> (c # w) # rest
            | [] \<Rightarrow> [[c]]))"

text \<open>\<open>s.split(c)\<close> for a one-character separator: all the pieces, never an empty list.\<close>

fun split_char :: "char \<Rightarrow> string \<Rightarrow> string list" where
  "split_char sep [] = [[]]"
| "split_char sep (c # cs) =
     (if c = sep then [] # split_char sep cs
      else (case split_char sep cs of
              w # rest \<Rightarrow> (c # w) # rest
            | [] \<Rightarrow> [[c]]))"

text \<open>
  \<open>s.lower()\<close> on code points below 256: the capitals \<open>A\<close> to \<open>Z\<close> and the capitals
  of Latin-1 (\<open>U+00C0\<close> to \<open>U+00DE\<close> without the multiplication sign \<open>U+00D7\<close>) move up
  by 32, every other code point stays.
\<close>

definition lower_char :: "char \<Rightarrow> char" where
  "lower_char c =
     (let n = (of_char c :: nat)
      in if (65 \<le> n \<and> n \<le> 90) \<or> (192 \<le> n \<and> n \<le> 222 \<and> n \<noteq> 215)
         then char_of (n + 32) else c)"

definition lower :: "string \<Rightarrow> string" where
  "lower s = map lower_char s"

section \<open>The RSS adapter: normalising service names\<close>

text \<open>
  An RSS adapter instance: its display name, the class attribute
  \<open>INCIDENT_PARSER_TYPE\<close> and the overridable method
  \<open>_extract_fallback_services\<close>, which may raise.
\<close>

record rss_adapter =
  name :: string
  incident_parser_type :: "string option"
  extract_fallback_services :: "pydict \<Rightarrow> error + string list"

text \<open>
  The body of the loop of \<open>RSSAdapter._format_incidents\<close>: one service string becomes
  one record with the keys \<open>group\<close>, \<open>component\<close>, \<open>time_created\<close> and
  \<open>status_message\<close>.
\<close>

definition impact :: "string \<Rightarrow> string \<Rightarrow> pyval \<Rightarrow> pyval \<Rightarrow> pydict" where
  "impact grp component pub_date title =
     [''group'' \<mapsto> PyStr grp, ''component'' \<mapsto> PyStr component,
      ''time_created'' \<mapsto> pub_date, ''status_message'' \<mapsto> title]"

definition format_service :: "rss_adapter \<Rightarrow> string \<Rightarrow> pyval \<Rightarrow> pyval \<Rightarrow> pydict" where
  "format_service a service title pub_date =
     (if contains '' - '' service then
        (let parts = split_once '' - '' service
         in impact (strip (parts ! 0)) (strip (parts ! 1)) pub_date title)
      else impact (name a) service pub_date title)"

definition format_incidents :: "rss_adapter \<Rightarrow> string list \<Rightarrow> pyval \<Rightarrow> pyval \<Rightarrow> pydict list" where
  "format_incidents a services title pub_date =
     map (\<lambda>service. format_service a service title pub_date) services"

section \<open>The RSS parser\<close>

text \<open>
  An \<open>item\<close> element of the feed as \<open>fetch_rss_feed_async\<close> reads it: the result of
  \<open>item.find(tag)\<close> for the five tags, each either absent or an element whose \<open>text\<close>
  is a string or \<open>None\<close> (an element without text).
\<close>

datatype element = Element (elem_text: "string option")

record item =
  title_elem :: "element option"
  link_elem :: "element option"
  pubDate_elem :: "element option"
  description_elem :: "element option"
  guid_elem :: "element option"

text \<open>\<open>e.text\<close> as a Python value.\<close>

definition elem_value :: "element \<Rightarrow> pyval" where
  "elem_value e = (case elem_text e of None \<Rightarrow> PyNone | Some s \<Rightarrow> PyStr s)"

text \<open>
  The test \<open>e is not None and e.text\<close>: the text of the element when the element is
  there and its text is a non-empty string.
\<close>

definition nonempty_text :: "element option \<Rightarrow> string option" where
  "nonempty_text e =
     (case e of
        None \<Rightarrow> None
      | Some el \<Rightarrow>
          (case elem_text el of
             None \<Rightarrow> None
           | Some s \<Rightarrow> if s \<noteq> [] then Some s else None))"

text \<open>\<open>s.split('/')[-1]\<close>.\<close>

definition last_segment :: "string \<Rightarrow> string" where
  "last_segment s = last (split_char CHR ''/'' s)"

text \<open>The variable \<open>incident_id\<close> after the \<open>if\<close>/\<open>elif\<close>.\<close>

definition incident_id_of :: "item \<Rightarrow> pyval" where
  "incident_id_of it =
     (case nonempty_text (guid_elem it) of
        Some g \<Rightarrow> PyStr (last_segment g)
      | None \<Rightarrow>
          (case nonempty_text (link_elem it) of
             Some l \<Rightarrow> PyStr (last_segment l)
           | None \<Rightarrow> PyNone))"

text \<open>
  The dictionary appended for one item. Python reads the entry for \<open>'id'\<close>,
  \<open>incident_id or title.text if title is not None else 'unknown'\<close>, as
  \<open>(incident_id or title.text) if title is not None else 'unknown'\<close>.
\<close>

definition parse_item :: "item \<Rightarrow> pydict" where
  "parse_item it =
     [''id'' \<mapsto>
        (case title_elem it of
           Some t \<Rightarrow> if truthy (incident_id_of it) then incident_id_of it else elem_value t
         | None \<Rightarrow> PyStr ''unknown''),
      ''title'' \<mapsto> (case title_elem it of Some e \<Rightarrow> elem_value e | None \<Rightarrow> PyStr ''N/A''),
      ''link'' \<mapsto> (case link_elem it of Some e \<Rightarrow> elem_value e | None \<Rightarrow> PyStr ''N/A''),
      ''pub_date'' \<mapsto> (case pubDate_elem it of Some e \<Rightarrow> elem_value e | None \<Rightarrow> PyStr ''N/A''),
      ''description'' \<mapsto>
        (case description_elem it of Some e \<Rightarrow> elem_value e | None \<Rightarrow> PyStr ''N/A'')]"

text \<open>
  \<open>fetch_rss_feed_async\<close>, given what the request and the XML parser delivered: an
  exception, or the \<open>item\<close> elements of the feed in document order.
\<close>

definition fetch_rss_feed_async :: "error + item list \<Rightarrow> nat \<Rightarrow> error + pydict list" where
  "fetch_rss_feed_async feed max_items =
     (case feed of
        Inl e \<Rightarrow> Inl e
      | Inr items \<Rightarrow> Inr (map parse_item (take max_items items)))"

section \<open>The embedded list of affected components\<close>

text \<open>
  The regular expression of \<open>extract_services_from_html\<close> is a sequence of literals and
  greedy repetitions of a character class. \<open>rx_match\<close> matches such a sequence at the
  start of a string with Python's backtracking order: a repetition first takes as many
  characters as the class allows and gives them back one by one, down to its minimum,
  until the rest of the pattern matches. The result is the text taken by each element of
  the pattern and the unmatched rest.
\<close>

datatype rx = Lit string | Rep nat "char \<Rightarrow> bool"

fun first_match :: "(nat \<Rightarrow> 'a option) \<Rightarrow> nat list \<Rightarrow> 'a option" where
  "first_match f [] = None"
| "first_match f (k # ks) = (case f k of Some r \<Rightarrow> Some r | None \<Rightarrow> first_match f ks)"

primrec rx_match :: "rx list \<Rightarrow> string \<Rightarrow> (string list \<times> string) option" where
  "rx_match [] s = Some ([], s)"
| "rx_match (r # rs) s =
     (case r of
        Lit l \<Rightarrow>
          if prefix l s
          then map_option (\<lambda>(gs, rest). (l # gs, rest)) (rx_match rs (drop (length l) s))
          else None
      | Rep lo p \<Rightarrow>
          first_match
            (\<lambda>k. map_option (\<lambda>(gs, rest). (take k s # gs, rest)) (rx_match rs (drop k s)))
            (rev [lo ..< Suc (length (takeWhile p s))]))"

text \<open>
  \<open>re.findall\<close>: scan from left to right, try the pattern at every position, and after
  a match go on behind it. \<open>skip\<close> counts the characters of the last match that are
  still to be passed. The pattern used here matches no empty text, so no match starts
  at the end of the string.
\<close>

fun findall :: "rx list \<Rightarrow> nat \<Rightarrow> string \<Rightarrow> string list list" where
  "findall rs skip [] = []"
| "findall rs skip (c # cs) =
     (if 0 < skip then findall rs (skip - 1) cs
      else (case rx_match rs (c # cs) of
              None \<Rightarrow> findall rs 0 cs
            | Some (gs, rest) \<Rightarrow> gs # findall rs (length (c # cs) - length rest - 1) cs))"

text \<open>The pattern \<open><li>([^(]+)\s*\([^)]+\)</li>\<close> and its only group.\<close>

definition li_pattern :: "rx list" where
  "li_pattern =
     [Lit ''<li>'', Rep 1 (\<lambda>c. c \<noteq> CHR ''(''), Rep 0 is_space, Lit ''('',
      Rep 1 (\<lambda>c. c \<noteq> CHR '')''), Lit '')</li>'']"

definition group1 :: "string list \<Rightarrow> string" where
  "group1 gs = (case gs of a # g # rest \<Rightarrow> g | _ \<Rightarrow> [])"

text \<open>
  \<open>extract_services_from_html\<close>. \<open>html.unescape\<close> belongs to the standard library and
  is a parameter; it returns a text without \<open>&\<close> unchanged.
\<close>

definition extract_services_from_html :: "(string \<Rightarrow> string) \<Rightarrow> pyval \<Rightarrow> string list" where
  "extract_services_from_html unescape html_content =
     (case html_content of
        PyStr h \<Rightarrow>
          if h = [] then []
          else map (\<lambda>gs. strip (group1 gs)) (findall li_pattern 0 (unescape h))
      | _ \<Rightarrow> [])"

section \<open>The extraction cascade\<close>

text \<open>
  What \<open>process_incident_async\<close> takes from outside the adapter: \<open>html.unescape\<close>, and
  \<open>HTMLIncidentParser.get_affected_services_async(url, parser_type)\<close>, which requests
  the page and parses it and so may raise.
\<close>

record env =
  html_unescape :: "string \<Rightarrow> string"
  get_affected_services_async :: "string \<Rightarrow> string \<Rightarrow> error + string list"

definition parse_incident_page :: "env \<Rightarrow> rss_adapter \<Rightarrow> string \<Rightarrow> error + string list" where
  "parse_incident_page ev a url =
     (case incident_parser_type a of
        Some t \<Rightarrow> get_affected_services_async ev url t
      | None \<Rightarrow> Inl AttributeError)"

text \<open>
  Strategy 2 of \<open>process_incident_async\<close>: \<open>Some\<close> services when the condition
  \<open>self.INCIDENT_PARSER_TYPE and link and link != 'N/A'\<close> holds and the page gives a
  non-empty list; an exception from the page is swallowed by the \<open>except\<close> branch.
\<close>

definition page_strategy :: "env \<Rightarrow> rss_adapter \<Rightarrow> pyval \<Rightarrow> string list option" where
  "page_strategy ev a link =
     (if (case incident_parser_type a of Some t \<Rightarrow> t \<noteq> [] | None \<Rightarrow> False)
         \<and> truthy link \<and> link \<noteq> PyStr ''N/A''
      then
        (case link of
           PyStr url \<Rightarrow>
             (case parse_incident_page ev a url of
                Inr services_from_page \<Rightarrow>
                  if services_from_page \<noteq> [] then Some services_from_page else None
              | Inl e \<Rightarrow> None)
         | _ \<Rightarrow> None)
      else None)"

definition process_incident_async :: "env \<Rightarrow> rss_adapter \<Rightarrow> pydict \<Rightarrow> error + pydict list" where
  "process_incident_async ev a incident =
     (let title = dict_get_default incident ''title'' (PyStr ''Unknown Incident'');
          pub_date = dict_get_default incident ''pub_date'' (PyStr ''Unknown Time'');
          link = dict_get_default incident ''link'' (PyStr []);
          description = dict_get_default incident ''description'' (PyStr []);
          services_from_rss = extract_services_from_html (html_unescape ev) description
      in if services_from_rss \<noteq> [] then Inr (format_incidents a services_from_rss title pub_date)
         else
           (case page_strategy ev a link of
              Some services_from_page \<Rightarrow> Inr (format_incidents a services_from_page title pub_date)
            | None \<Rightarrow>
                (case extract_fallback_services a incident of
                   Inl e \<Rightarrow> Inl e
                 | Inr fallback_services \<Rightarrow>
                     Inr (format_incidents a fallback_services title pub_date))))"

text \<open>
  The concrete adapters. \<open>incident.get('title', '').lower()\<close> raises \<open>AttributeError\<close>
  when the title is present but is not a string.
\<close>

definition bolna_fallback :: "pydict \<Rightarrow> error + string list" where
  "bolna_fallback incident =
     (case dict_get_default incident ''title'' (PyStr []) of
        PyStr t \<Rightarrow>
          (let title = lower t in
           if contains ''twilio'' title then Inr [''Twilio'']
           else if contains ''voice'' title then Inr [''Voice Service'']
           else if contains ''api'' title then Inr [''API'']
           else if contains ''webhook'' title then Inr [''Webhooks'']
           else Inr [''Bolna Platform''])
      | _ \<Rightarrow> Inl AttributeError)"

definition claude_fallback :: "pydict \<Rightarrow> error + string list" where
  "claude_fallback incident =
     (case dict_get_default incident ''title'' (PyStr []) of
        PyStr t \<Rightarrow>
          (let title = lower t in
           if contains ''api'' title then Inr [''Claude API'']
           else if contains ''claude.ai'' title \<or> contains ''web'' title then Inr [''claude.ai'']
           else if contains ''platform'' title then Inr [''platform.claude.com'']
           else if contains ''console'' title then Inr [''Console'']
           else Inr [''Claude Service''])
      | _ \<Rightarrow> Inl AttributeError)"

definition BolnaAdapter :: rss_adapter where
  "BolnaAdapter =
     \<lparr>name = ''Bolna'', incident_parser_type = Some ''bolna'',
      extract_fallback_services = bolna_fallback\<rparr>"

definition ClaudeAdapter :: rss_adapter where
  "ClaudeAdapter =
     \<lparr>name = ''Claude'', incident_parser_type = Some ''claude'',
      extract_fallback_services = claude_fallback\<rparr>"

section \<open>The formatter\<close>

text \<open>
  \<open>strftime("%Y-%m-%d %H:%M:%S")\<close> as the C library of the platform prints it: the year
  as a decimal number without leading zeros, so that a year below 1000 takes fewer than
  four characters; each other field on two digits, zero-filled.
\<close>

definition digit_char :: "nat \<Rightarrow> char" where
  "digit_char n = ''0123456789'' ! (n mod 10)"

fun decimal :: "nat \<Rightarrow> string" where
  "decimal n = (if n < 10 then [digit_char n] else decimal (n div 10) @ [digit_char n])"

definition two_digits :: "nat \<Rightarrow> string" where
  "two_digits n = [digit_char (n div 10), digit_char n]"

definition four_digits :: "nat \<Rightarrow> string" where
  "four_digits n =
     [digit_char (n div 1000), digit_char (n div 100), digit_char (n div 10), digit_char n]"

definition strftime :: "datetime \<Rightarrow> string" where
  "strftime d =
     decimal (dt_year d) @ ''-'' @ two_digits (dt_month d) @ ''-'' @ two_digits (dt_day d)
       @ '' '' @ two_digits (dt_hour d) @ '':'' @ two_digits (dt_minute d) @ '':''
       @ two_digits (dt_second d)"

text \<open>
  \<open>str(d)\<close> for a \<open>datetime\<close> object, which is \<open>d.isoformat(sep=' ')\<close>: here the year is
  always on four digits.
\<close>

definition str_datetime :: "datetime \<Rightarrow> string" where
  "str_datetime d =
     four_digits (dt_year d) @ ''-'' @ two_digits (dt_month d) @ ''-'' @ two_digits (dt_day d)
       @ '' '' @ two_digits (dt_hour d) @ '':'' @ two_digits (dt_minute d) @ '':''
       @ two_digits (dt_second d)"

text \<open>\<open>time_created.replace('Z', '+00:00')\<close>: every \<open>Z\<close> of the string is replaced.\<close>

definition replace_Z :: "string \<Rightarrow> string" where
  "replace_Z s = concat (map (\<lambda>c. if c = CHR ''Z'' then ''+00:00'' else [c]) s)"

text \<open>
  The time stamp \<open>ts\<close> of \<open>format_incident\<close>. \<open>datetime.fromisoformat\<close> belongs to the
  standard library and is a parameter, a partial map from strings to \<open>datetime\<close> objects:
  \<open>None\<close> stands for the exception it raises, which the bare \<open>except\<close> catches. The
  parser is asked once, about the string with every \<open>Z\<close> replaced.
\<close>

definition format_timestamp :: "(string \<rightharpoonup> datetime) \<Rightarrow> pyval \<Rightarrow> string" where
  "format_timestamp fromisoformat time_created =
     (case time_created of
        PyStr s \<Rightarrow>
          (case fromisoformat (replace_Z s) of
             Some d \<Rightarrow> strftime d
           | None \<Rightarrow> s)
      | PyDatetime d \<Rightarrow> strftime d
      | PyNone \<Rightarrow> ''Unknown Time'')"

text \<open>A value inside an f-string.\<close>

definition py_str :: "pyval \<Rightarrow> string" where
  "py_str v = (case v of PyNone \<Rightarrow> ''None'' | PyStr s \<Rightarrow> s | PyDatetime d \<Rightarrow> str_datetime d)"

definition format_incident :: "(string \<rightharpoonup> datetime) \<Rightarrow> pydict \<Rightarrow> string" where
  "format_incident fromisoformat incident =
     (let ts = format_timestamp fromisoformat (dict_get incident ''time_created'');
          product = py_str (dict_get_default incident ''group'' (PyStr ''Unknown Group''))
                    @ '' - ''
                    @ py_str (dict_get_default incident ''component'' (PyStr ''Unknown Component''));
          status_msg = dict_get_default incident ''status_message'' (PyStr ''Unknown Status'')
      in ''['' @ ts @ ''] Product: '' @ product @ [CHR 0x0A] @ ''Status: '' @ py_str status_msg
         @ [CHR 0x0A])"

text \<open>
  To state which digits a rendered time stamp carries: the number that a string of
  decimal digits denotes, and the ranges that the fields of every \<open>datetime\<close> object
  keep (its constructor enforces them).
\<close>

definition digit_of :: "char \<Rightarrow> nat option" where
  "digit_of c =
     (let n = (of_char c :: nat) in if 48 \<le> n \<and> n \<le> 57 then Some (n - 48) else None)"

fun number_of :: "nat \<Rightarrow> string \<Rightarrow> nat option" where
  "number_of acc [] = Some acc"
| "number_of acc (c # cs) =
     (case digit_of c of None \<Rightarrow> None | Some d \<Rightarrow> number_of (10 * acc + d) cs)"

definition datetime_ok :: "datetime \<Rightarrow> bool" where
  "datetime_ok d =
     (1 \<le> dt_year d \<and> dt_year d \<le> 9999 \<and> 1 \<le> dt_month d \<and> dt_month d \<le> 12
      \<and> 1 \<le> dt_day d \<and> dt_day d \<le> 31 \<and> dt_hour d < 24 \<and> dt_minute d < 60
      \<and> dt_second d < 60)"

section \<open>The watcher\<close>

text \<open>
  \<open>Watcher.last_seen_ids\<close> maps an adapter name to the set of incident ids seen for it.
  \<open>seen_get\<close> is \<open>self.last_seen_ids.get(adapter_name, set())\<close> and \<open>seen_add\<close> is
  \<open>self.last_seen_ids.setdefault(adapter_name, set()).add(incident_id)\<close>.
\<close>

type_synonym seen = "string \<rightharpoonup> pyval set"

definition seen_get :: "seen \<Rightarrow> string \<Rightarrow> pyval set" where
  "seen_get s nm = (case s nm of None \<Rightarrow> {} | Some ids \<Rightarrow> ids)"

definition seen_add :: "seen \<Rightarrow> string \<Rightarrow> pyval \<Rightarrow> seen" where
  "seen_add s nm incident_id = s(nm \<mapsto> insert incident_id (seen_get s nm))"

text \<open>
  What the watcher sees of an adapter instance during one pass: the outcome of
  \<open>_fetch_incidents_async(adapter)\<close> and of \<open>_process_incident(adapter, incident)\<close>.
  Both reach the network, so both may raise. The registry is a dictionary from adapter
  names to adapter classes, walked in insertion order; one pass instantiates each class
  anew, so a pass is given the registry together with what its instances answer.
\<close>

record adapter =
  fetch_incidents_async :: "error + pydict list"
  process_incident :: "pydict \<Rightarrow> error + pydict list"

type_synonym registry = "(string \<times> adapter) list"

text \<open>
  The observable steps of the watcher, each tagged with the adapter name:
  \<^item> \<open>Process\<close>: \<open>_process_incident\<close> is called on an incident;
  \<^item> \<open>NewUpdate\<close>: the \<open>NEW UPDATE FROM\<close> header is printed, followed by every formatted
    record of the incident;
  \<^item> \<open>LogError\<close>: the \<open>except\<close> branch of \<open>check_incidents\<close> logs the exception;
  \<^item> \<open>StatusHeader\<close>, \<open>StatusNone\<close>, \<open>StatusEntry\<close>, \<open>StatusGap\<close>, \<open>StatusFooter\<close>:
    the lines of the startup box of \<open>show_initial_status\<close>;
  \<^item> \<open>StatusError\<close>: the \<open>except\<close> branch of \<open>show_initial_status\<close> prints and logs
    the exception.
\<close>

datatype event =
    Process string pydict
  | NewUpdate string pydict "pydict list"
  | LogError string error
  | StatusHeader string
  | StatusNone string
  | StatusEntry string pydict pydict
  | StatusGap string
  | StatusFooter string
  | StatusError string error

fun source_of :: "event \<Rightarrow> string" where
  "source_of (Process nm i) = nm"
| "source_of (NewUpdate nm i ps) = nm"
| "source_of (LogError nm e) = nm"
| "source_of (StatusHeader nm) = nm"
| "source_of (StatusNone nm) = nm"
| "source_of (StatusEntry nm i p) = nm"
| "source_of (StatusGap nm) = nm"
| "source_of (StatusFooter nm) = nm"
| "source_of (StatusError nm e) = nm"

fun is_new_update :: "event \<Rightarrow> bool" where
  "is_new_update (NewUpdate nm i ps) = True"
| "is_new_update ev = False"

text \<open>
  The loop \<open>for incident in incidents\<close> of \<open>check_incidents\<close>. The third component of
  the result is the exception that left the loop, if any: the \<open>try\<close> encloses the whole
  loop, so an exception from processing one incident ends the pass over this adapter.
\<close>

fun check_loop ::
  "string \<Rightarrow> (pydict \<Rightarrow> error + pydict list) \<Rightarrow> pydict list \<Rightarrow> seen
     \<Rightarrow> seen \<times> event list \<times> error option" where
  "check_loop nm proc [] s = (s, [], None)"
| "check_loop nm proc (incident # rest) s =
     (let incident_id = dict_get incident ''id'' in
      if incident_id \<notin> seen_get s nm then
        (let s1 = seen_add s nm incident_id in
         case proc incident of
           Inl e \<Rightarrow> (s1, [Process nm incident], Some e)
         | Inr processed \<Rightarrow>
             (case check_loop nm proc rest s1 of
                (s2, evs, r) \<Rightarrow>
                  (s2,
                   Process nm incident
                     # (if processed \<noteq> [] then [NewUpdate nm incident processed] else [])
                     @ evs,
                   r)))
      else check_loop nm proc rest s)"

text \<open>The body of \<open>for adapter_name in self.registry.list_adapters()\<close>, with its \<open>try\<close>.\<close>

definition check_adapter :: "string \<Rightarrow> adapter \<Rightarrow> seen \<Rightarrow> seen \<times> event list" where
  "check_adapter nm a s =
     (case fetch_incidents_async a of
        Inl e \<Rightarrow> (s, [LogError nm e])
      | Inr incidents \<Rightarrow>
          (case check_loop nm (process_incident a) incidents s of
             (s1, evs, None) \<Rightarrow> (s1, evs)
           | (s1, evs, Some e) \<Rightarrow> (s1, evs @ [LogError nm e])))"

fun check_incidents :: "registry \<Rightarrow> seen \<Rightarrow> seen \<times> event list" where
  "check_incidents [] s = (s, [])"
| "check_incidents ((nm, a) # reg) s =
     (case check_adapter nm a s of
        (s1, evs1) \<Rightarrow>
          (case check_incidents reg s1 of
             (s2, evs2) \<Rightarrow> (s2, evs1 @ evs2)))"

text \<open>
  \<open>show_initial_status\<close>. The inner loop prints every processed record and counts
  them; a gap line follows a record while the count is below
  \<open>min(3, len(incidents))\<close>.
\<close>

fun show_processed ::
  "string \<Rightarrow> pydict \<Rightarrow> nat \<Rightarrow> nat \<Rightarrow> pydict list \<Rightarrow> event list \<times> nat" where
  "show_processed nm incident n_incidents count [] = ([], count)"
| "show_processed nm incident n_incidents count (processed # rest) =
     (let count1 = count + 1 in
      case show_processed nm incident n_incidents count1 rest of
        (evs, count2) \<Rightarrow>
          (StatusEntry nm incident processed
             # (if count1 < min 3 n_incidents then [StatusGap nm] else [])
             @ evs,
           count2))"

fun initial_loop ::
  "string \<Rightarrow> (pydict \<Rightarrow> error + pydict list) \<Rightarrow> nat \<Rightarrow> pydict list \<Rightarrow> nat \<Rightarrow> seen
     \<Rightarrow> seen \<times> event list \<times> error option" where
  "initial_loop nm proc n_incidents [] count s = (s, [], None)"
| "initial_loop nm proc n_incidents (incident # rest) count s =
     (let incident_id = dict_get incident ''id'';
          s1 = seen_add s nm incident_id in
      case proc incident of
        Inl e \<Rightarrow> (s1, [Process nm incident], Some e)
      | Inr processed \<Rightarrow>
          (case show_processed nm incident n_incidents count processed of
             (shown, count1) \<Rightarrow>
               (case initial_loop nm proc n_incidents rest count1 s1 of
                  (s2, evs, r) \<Rightarrow> (s2, Process nm incident # shown @ evs, r))))"

definition initial_adapter :: "string \<Rightarrow> adapter \<Rightarrow> seen \<Rightarrow> seen \<times> event list" where
  "initial_adapter nm a s =
     (case fetch_incidents_async a of
        Inl e \<Rightarrow> (s, [StatusError nm e])
      | Inr incidents \<Rightarrow>
          if incidents = [] then (s, [StatusHeader nm, StatusNone nm, StatusFooter nm])
          else
            (case initial_loop nm (process_incident a) (length incidents) (take 3 incidents) 0 s of
               (s1, evs, None) \<Rightarrow> (s1, StatusHeader nm # evs @ [StatusFooter nm])
             | (s1, evs, Some e) \<Rightarrow> (s1, StatusHeader nm # evs @ [StatusError nm e])))"

fun show_initial_status :: "registry \<Rightarrow> seen \<Rightarrow> seen \<times> event list" where
  "show_initial_status [] s = (s, [])"
| "show_initial_status ((nm, a) # reg) s =
     (case initial_adapter nm a s of
        (s1, evs1) \<Rightarrow>
          (case show_initial_status reg s1 of
             (s2, evs2) \<Rightarrow> (s2, evs1 @ evs2)))"

text \<open>
  The \<open>while True\<close> loop of \<open>start_monitoring\<close> never ends by itself; \<open>run_cycles\<close>
  is any finite number of its rounds, one registry answer per round.
\<close>

fun run_cycles :: "registry list \<Rightarrow> seen \<Rightarrow> seen \<times> event list" where
  "run_cycles [] s = (s, [])"
| "run_cycles (reg # regs) s =
     (case check_incidents reg s of
        (s1, evs1) \<Rightarrow>
          (case run_cycles regs s1 of
             (s2, evs2) \<Rightarrow> (s2, evs1 @ evs2)))"

definition start_monitoring :: "registry \<Rightarrow> registry list \<Rightarrow> seen \<times> event list" where
  "start_monitoring reg0 regs =
     (case show_initial_status reg0 Map.empty of
        (s1, evs1) \<Rightarrow>
          (case run_cycles regs s1 of
             (s2, evs2) \<Rightarrow> (s2, evs1 @ evs2)))"

section \<open>Example incidents and adapters\<close>

text \<open>
  Concrete inputs for the examples below: incidents that carry only an id, an adapter that
  processes every incident into one record, and an adapter whose processing of the incident
  \<open>x1\<close> raises (a failed detail request).
\<close>

definition demo_incident :: "string \<Rightarrow> pydict" where
  "demo_incident i = [''id'' \<mapsto> PyStr i]"

definition demo_record :: pydict where
  "demo_record = impact ''OpenAI'' ''API'' PyNone PyNone"

definition steady_adapter :: "pydict list \<Rightarrow> adapter" where
  "steady_adapter incs =
     \<lparr>fetch_incidents_async = Inr incs, process_incident = (\<lambda>i. Inr [demo_record])\<rparr>"

definition flaky_adapter :: "pydict list \<Rightarrow> adapter" where
  "flaky_adapter incs =
     \<lparr>fetch_incidents_async = Inr incs,
      process_incident =
        (\<lambda>i. if dict_get i ''id'' = PyStr ''x1'' then Inl TransportError else Inr [demo_record])\<rparr>"

definition failing_adapter :: "pydict list \<Rightarrow> adapter" where
  "failing_adapter incs =
     \<lparr>fetch_incidents_async = Inr incs, process_incident = (\<lambda>i. Inl TransportError)\<rparr>"

definition listed_incident :: pydict where
  "listed_incident =
     [''id'' \<mapsto> PyStr ''42'', ''title'' \<mapsto> PyStr ''Elevated errors'',
      ''link'' \<mapsto> PyStr ''https://status.example.com/incidents/42'',
      ''pub_date'' \<mapsto> PyStr ''2025-11-03T14:32:00Z'',
      ''description'' \<mapsto> PyStr ''<ul><li>API (Degraded)</li></ul>'']"

definition plain_incident :: pydict where
  "plain_incident =
     [''id'' \<mapsto> PyStr ''43'', ''title'' \<mapsto> PyStr ''Elevated errors'',
      ''link'' \<mapsto> PyStr ''https://status.example.com/incidents/43'',
      ''pub_date'' \<mapsto> PyStr ''2025-11-03T14:32:00Z'',
      ''description'' \<mapsto> PyStr ''Investigating'']"

definition offline :: env where
  "offline = \<lparr>html_unescape = (\<lambda>s. s), get_affected_services_async = (\<lambda>url t. Inl TransportError)\<rparr>"

definition online :: env where
  "online = \<lparr>html_unescape = (\<lambda>s. s),
             get_affected_services_async = (\<lambda>url t. Inr [''Voice - Calls''])\<rparr>"

definition untitled_item :: item where
  "untitled_item =
     \<lparr>title_elem = Some (Element None),
      link_elem = Some (Element (Some ''https://status.bolna.ai/incident/7'')),
      pubDate_elem = Some (Element (Some ''Mon, 03 Nov 2025 14:32:00 +0000'')),
      description_elem = Some (Element (Some ''Investigating'')),
      guid_elem = Some (Element (Some ''https://status.bolna.ai/incident/7''))\<rparr>"

definition unlinked_item :: item where
  "unlinked_item =
     \<lparr>title_elem = Some (Element (Some ''Twilio outage'')),
      link_elem = None,
      pubDate_elem = None,
      description_elem = Some (Element (Some ''Investigating'')),
      guid_elem = Some (Element (Some ''https://status.bolna.ai/incident/8''))\<rparr>"

definition slash_item :: item where
  "slash_item =
     \<lparr>title_elem = Some (Element (Some ''Elevated errors'')),
      link_elem = Some (Element (Some ''https://status.example.com/incidents/42'')),
      pubDate_elem = None,
      description_elem = None,
      guid_elem = Some (Element (Some ''https://status.example.com/incidents/42/''))\<rparr>"

definition guid_item :: item where
  "guid_item =
     \<lparr>title_elem = Some (Element (Some ''Elevated errors'')),
      link_elem = Some (Element (Some ''https://status.example.com/incidents/42'')),
      pubDate_elem = None,
      description_elem = None,
      guid_elem = Some (Element (Some ''tag:status.example.com,2025:/g-17''))\<rparr>"

definition headless_item :: item where
  "headless_item =
     \<lparr>title_elem = None,
      link_elem = Some (Element (Some ''https://status.example.com/incidents/42'')),
      pubDate_elem = None,
      description_elem = Some (Element (Some ''Investigating'')),
      guid_elem = Some (Element (Some ''tag:status.example.com,2025:/g-17''))\<rparr>"

section \<open>Facts about the string operations\<close>

lemma contains_iff: "contains p s \<longleftrightarrow> (\<exists>g c. s = g @ p @ c)"
proof (induction s)
  case Nil
  then show ?case by auto
next
  case (Cons x xs)
  show ?case
  proof
    assume "contains p (x # xs)"
    then consider "prefix p (x # xs)" | "contains p xs" by auto
    then show "\<exists>g c. x # xs = g @ p @ c"
    proof cases
      case 1
      then obtain c where "x # xs = p @ c" by (auto simp: prefix_def)
      then have "x # xs = [] @ p @ c" by simp
      then show ?thesis by blast
    next
      case 2
      with Cons.IH obtain g c where "xs = g @ p @ c" by blast
      then have "x # xs = (x # g) @ p @ c" by simp
      then show ?thesis by blast
    qed
  next
    assume "\<exists>g c. x # xs = g @ p @ c"
    then obtain g c where gc: "x # xs = g @ p @ c" by blast
    show "contains p (x # xs)"
    proof (cases g)
      case Nil
      with gc have "prefix p (x # xs)" by (simp add: prefix_def)
      then show ?thesis by simp
    next
      case (Cons y g')
      with gc have "xs = g' @ p @ c" by simp
      with Cons.IH have "contains p xs" by blast
      then show ?thesis by simp
    qed
  qed
qed

lemma split_once_absent: "\<not> contains sep s \<Longrightarrow> split_once sep s = [s]"
  by (induction s) auto

lemma split_once_first:
  assumes "sep \<noteq> []" and "s = g @ sep @ c"
    and "\<forall>g' c'. s = g' @ sep @ c' \<longrightarrow> length g \<le> length g'"
  shows "split_once sep s = [g, c]"
  using assms
proof (induction g arbitrary: s)
  case Nil
  then have s: "s = sep @ c" by simp
  with Nil.prems(1) obtain x xs where x: "s = x # xs" by (cases sep) auto
  have "prefix sep (x # xs)" using s x by (simp add: prefix_def)
  moreover have "drop (length sep) (x # xs) = c" using s x by (metis append_eq_conv_conj)
  ultimately show ?case using x by simp
next
  case (Cons x g)
  let ?t = "g @ sep @ c"
  have s: "s = x # ?t" using Cons.prems by simp
  have "\<not> prefix sep s"
  proof
    assume "prefix sep s"
    then obtain c' where "s = [] @ sep @ c'" by (auto simp: prefix_def)
    with Cons.prems(3) have "length (x # g) \<le> length ([]::string)" by blast
    then show False by simp
  qed
  moreover have "split_once sep ?t = [g, c]"
  proof (rule Cons.IH [OF Cons.prems(1) refl])
    show "\<forall>g' c'. ?t = g' @ sep @ c' \<longrightarrow> length g \<le> length g'"
    proof (intro allI impI)
      fix g' c' assume "?t = g' @ sep @ c'"
      then have "s = (x # g') @ sep @ c'" using s by simp
      with Cons.prems(3) have "length (x # g) \<le> length (x # g')" by blast
      then show "length g \<le> length g'" by simp
    qed
  qed
  ultimately show ?case using s by simp
qed

section \<open>Normalisation of a service string\<close>

lemma strip_decompose:
  "\<exists>l r. s = l @ strip s @ r \<and> list_all is_space l \<and> list_all is_space r"
proof -
  let ?t = "dropWhile is_space s"
  let ?l = "takeWhile is_space s"
  let ?r = "rev (takeWhile is_space (rev ?t))"
  have "rev ?t = takeWhile is_space (rev ?t) @ dropWhile is_space (rev ?t)" by simp
  then have "?t = rev (dropWhile is_space (rev ?t)) @ ?r"
    by (metis rev_append rev_rev_ident)
  then have t: "?t = strip s @ ?r" by (simp add: strip_def)
  have "s = ?l @ ?t" by simp
  with t have "s = ?l @ strip s @ ?r" by simp
  moreover have "list_all is_space ?l"
    by (simp add: list_all_iff) (metis set_takeWhileD)
  moreover have "list_all is_space ?r"
    by (simp add: list_all_iff) (metis set_takeWhileD)
  ultimately show ?thesis by blast
qed

lemma strip_ends:
  assumes "strip s \<noteq> []"
  shows "\<not> is_space (hd (strip s)) \<and> \<not> is_space (last (strip s))"
proof -
  let ?t = "dropWhile is_space s"
  let ?u = "dropWhile is_space (rev ?t)"
  have st: "strip s = rev ?u" by (simp add: strip_def)
  with assms have u: "?u \<noteq> []" by simp
  then have "\<not> is_space (hd ?u)" by (rule hd_dropWhile)
  with u st have l: "\<not> is_space (last (strip s))" by (simp add: last_rev)
  have t: "?t \<noteq> []"
  proof
    assume e: "?t = []"
    from u show False unfolding e by simp
  qed
  then have h: "\<not> is_space (hd ?t)" by (rule hd_dropWhile)
  have "rev ?t = takeWhile is_space (rev ?t) @ ?u" by simp
  then have "?t = rev ?u @ rev (takeWhile is_space (rev ?t))" by (metis rev_append rev_rev_ident)
  with st have "?t = strip s @ rev (takeWhile is_space (rev ?t))" by simp
  with assms have "hd ?t = hd (strip s)" by (metis hd_append2)
  with h l show ?thesis by simp
qed


lemma impact_fields:
  "dict_get (impact grp component pub_date title) ''group'' = PyStr grp"
  "dict_get (impact grp component pub_date title) ''component'' = PyStr component"
  "dict_get (impact grp component pub_date title) ''time_created'' = pub_date"
  "dict_get (impact grp component pub_date title) ''status_message'' = title"
  "dom (impact grp component pub_date title)
     = {''group'', ''component'', ''time_created'', ''status_message''}"
  by (auto simp: impact_def dict_get_def)

text \<open>
  C8. The record made for a service string has exactly the keys \<open>group\<close>, \<open>component\<close>,
  \<open>time_created\<close> and \<open>status_message\<close>. When the string contains \<open>" - "\<close>, the text
  before the first occurrence, trimmed, is stored under \<open>group\<close> and the text after it,
  trimmed, under \<open>component\<close>; when it does not, the adapter's display name is stored
  under \<open>group\<close> and the string itself under \<open>component\<close>. Trimming removes white space
  at both ends and nothing else. The examples are those of the specification, a string
  with white space around the separator and a second separator, and a string with
  no-break spaces.
\<close>

theorem format_service_group_component:
  "(\<not> (\<exists>g c. service = g @ '' - '' @ c) \<longrightarrow>
      dict_get (format_service a service title pub_date) ''group'' = PyStr (name a)
      \<and> dict_get (format_service a service title pub_date) ''component'' = PyStr service)
   \<and> (\<forall>g c. service = g @ '' - '' @ c
          \<and> (\<forall>g' c'. service = g' @ '' - '' @ c' \<longrightarrow> length g \<le> length g') \<longrightarrow>
      dict_get (format_service a service title pub_date) ''group'' = PyStr (strip g)
      \<and> dict_get (format_service a service title pub_date) ''component'' = PyStr (strip c))
   \<and> dict_get (format_service a service title pub_date) ''time_created'' = pub_date
   \<and> dict_get (format_service a service title pub_date) ''status_message'' = title
   \<and> dom (format_service a service title pub_date)
       = {''group'', ''component'', ''time_created'', ''status_message''}
   \<and> format_incidents a services title pub_date
       = map (\<lambda>s. format_service a s title pub_date) services
   \<and> (\<exists>l r. s = l @ strip s @ r \<and> list_all is_space l \<and> list_all is_space r)
   \<and> (strip s \<noteq> [] \<longrightarrow> \<not> is_space (hd (strip s)) \<and> \<not> is_space (last (strip s)))
   \<and> dict_get (format_service a ''API - Chat Completions'' title pub_date) ''group''
       = PyStr ''API''
   \<and> dict_get (format_service a ''API - Chat Completions'' title pub_date) ''component''
       = PyStr ''Chat Completions''
   \<and> dict_get (format_service (a\<lparr>name := ''Bolna''\<rparr>) ''Webhooks'' title pub_date) ''group''
       = PyStr ''Bolna''
   \<and> dict_get (format_service (a\<lparr>name := ''Bolna''\<rparr>) ''Webhooks'' title pub_date) ''component''
       = PyStr ''Webhooks''
   \<and> dict_get (format_service a ''Voice  -  Calls - EU '' title pub_date) ''group''
       = PyStr ''Voice''
   \<and> dict_get (format_service a ''Voice  -  Calls - EU '' title pub_date) ''component''
       = PyStr ''Calls - EU''
   \<and> dict_get (format_service a (''A'' @ [CHR 0xA0] @ '' - '' @ [CHR 0xA0] @ ''B'') title pub_date)
         ''group'' = PyStr ''A''
   \<and> dict_get (format_service a (''A'' @ [CHR 0xA0] @ '' - '' @ [CHR 0xA0] @ ''B'') title pub_date)
         ''component'' = PyStr ''B''"
proof -
  let ?r = "format_service a service title pub_date"
  have absent: "\<not> (\<exists>g c. service = g @ '' - '' @ c) \<longrightarrow>
      dict_get ?r ''group'' = PyStr (name a) \<and> dict_get ?r ''component'' = PyStr service"
  proof
    assume "\<not> (\<exists>g c. service = g @ '' - '' @ c)"
    then have "\<not> contains '' - '' service" by (simp add: contains_iff)
    then show "dict_get ?r ''group'' = PyStr (name a) \<and> dict_get ?r ''component'' = PyStr service"
      by (simp add: format_service_def impact_fields)
  qed
  have present: "\<forall>g c. service = g @ '' - '' @ c
          \<and> (\<forall>g' c'. service = g' @ '' - '' @ c' \<longrightarrow> length g \<le> length g') \<longrightarrow>
      dict_get ?r ''group'' = PyStr (strip g) \<and> dict_get ?r ''component'' = PyStr (strip c)"
  proof (intro allI impI)
    fix g c
    assume h: "service = g @ '' - '' @ c
       \<and> (\<forall>g' c'. service = g' @ '' - '' @ c' \<longrightarrow> length g \<le> length g')"
    then have "contains '' - '' service" using contains_iff by blast
    moreover have "split_once '' - '' service = [g, c]"
      using h by (intro split_once_first) auto
    ultimately show "dict_get ?r ''group'' = PyStr (strip g)
        \<and> dict_get ?r ''component'' = PyStr (strip c)"
      by (simp add: format_service_def impact_fields)
  qed
  have rest: "dict_get ?r ''time_created'' = pub_date" "dict_get ?r ''status_message'' = title"
    "dom ?r = {''group'', ''component'', ''time_created'', ''status_message''}"
    by (simp_all add: format_service_def Let_def impact_fields)
  have all: "format_incidents a services title pub_date
       = map (\<lambda>s. format_service a s title pub_date) services"
    by (simp add: format_incidents_def)
  have e1: "dict_get (format_service a ''API - Chat Completions'' title pub_date) ''group''
       = PyStr ''API''"
    "dict_get (format_service a ''API - Chat Completions'' title pub_date) ''component''
       = PyStr ''Chat Completions''"
    by (simp_all add: format_service_def impact_fields strip_def is_space_def)
  have e2: "dict_get (format_service (a\<lparr>name := ''Bolna''\<rparr>) ''Webhooks'' title pub_date) ''group''
       = PyStr ''Bolna''"
    "dict_get (format_service (a\<lparr>name := ''Bolna''\<rparr>) ''Webhooks'' title pub_date) ''component''
       = PyStr ''Webhooks''"
    by (simp_all add: format_service_def impact_fields)
  have e3: "dict_get (format_service a ''Voice  -  Calls - EU '' title pub_date) ''group''
       = PyStr ''Voice''"
    "dict_get (format_service a ''Voice  -  Calls - EU '' title pub_date) ''component''
       = PyStr ''Calls - EU''"
    by (simp_all add: format_service_def impact_fields strip_def is_space_def)
  have e4: "dict_get (format_service a (''A'' @ [CHR 0xA0] @ '' - '' @ [CHR 0xA0] @ ''B'') title pub_date)
         ''group'' = PyStr ''A''"
    "dict_get (format_service a (''A'' @ [CHR 0xA0] @ '' - '' @ [CHR 0xA0] @ ''B'') title pub_date)
         ''component'' = PyStr ''B''"
    by (simp_all add: format_service_def impact_fields strip_def is_space_def)
  have se: "strip s \<noteq> [] \<longrightarrow> \<not> is_space (hd (strip s)) \<and> \<not> is_space (last (strip s))"
    using strip_ends by blast
  note sd = strip_decompose [of s]
  show ?thesis
    by (intro conjI) (fact absent present rest all sd se e1 e2 e3 e4)+
qed


theorem format_service_group_component_witness:
  "dict_get (format_service \<lparr>name = ''Claude'', incident_parser_type = None,
                    extract_fallback_services = (\<lambda>i. Inr [])\<rparr>
      '' A  - B - C'' (PyStr ''Outage'') PyNone) ''group'' = PyStr ''A''
   \<and> dict_get (format_service \<lparr>name = ''Claude'', incident_parser_type = None,
                    extract_fallback_services = (\<lambda>i. Inr [])\<rparr>
      '' A  - B - C'' (PyStr ''Outage'') PyNone) ''component'' = PyStr ''B - C''
   \<and> dict_get (format_service \<lparr>name = ''Claude'', incident_parser_type = None,
                    extract_fallback_services = (\<lambda>i. Inr [])\<rparr>
      ''Web-hooks -'' (PyStr ''Outage'') PyNone) ''group'' = PyStr ''Claude''
   \<and> dict_get (format_service \<lparr>name = ''Claude'', incident_parser_type = None,
                    extract_fallback_services = (\<lambda>i. Inr [])\<rparr>
      ''Web-hooks -'' (PyStr ''Outage'') PyNone) ''component'' = PyStr ''Web-hooks -''
   \<and> dict_get (format_service \<lparr>name = ''Claude'', incident_parser_type = None,
                    extract_fallback_services = (\<lambda>i. Inr [])\<rparr>
      ''Web-hooks -'' (PyStr ''Outage'') PyNone) ''status_message'' = PyStr ''Outage''"
proof -
  let ?a = "\<lparr>name = ''Claude'', incident_parser_type = None,
             extract_fallback_services = (\<lambda>i. Inr [])\<rparr>"
  have first: "\<forall>g' c'. '' A  - B - C'' = g' @ '' - '' @ c' \<longrightarrow> length '' A '' \<le> length g'"
  proof (intro allI impI)
    fix g' c' :: string
    assume e: "'' A  - B - C'' = g' @ '' - '' @ c'"
    show "length '' A '' \<le> length g'"
    proof (cases g')
      case Nil
      with e show ?thesis by simp
    next
      case (Cons x1 g1)
      note c1 = Cons
      show ?thesis
      proof (cases g1)
        case Nil
        with e c1 show ?thesis by simp
      next
        case (Cons x2 g2)
        note c2 = Cons
        show ?thesis
        proof (cases g2)
          case Nil
          with e c1 c2 show ?thesis by simp
        next
          case (Cons x3 g3)
          with c1 c2 show ?thesis by simp
        qed
      qed
    qed
  qed
  have absent: "\<not> (\<exists>g c. ''Web-hooks -'' = g @ '' - '' @ c)"
    using contains_iff [of "'' - ''" "''Web-hooks -''"] by simp
  note t1 = format_service_group_component [of "'' A  - B - C''" ?a "PyStr ''Outage''" PyNone]
  note t2 = format_service_group_component [of "''Web-hooks -''" ?a "PyStr ''Outage''" PyNone]
  have eq: "'' A  - B - C'' = '' A '' @ '' - '' @ ''B - C''" by simp
  from t1 [THEN conjunct2, THEN conjunct1, rule_format, of "'' A ''" "''B - C''",
      OF conjI [OF eq first]]
  have split: "dict_get (format_service ?a '' A  - B - C'' (PyStr ''Outage'') PyNone) ''group''
          = PyStr (strip '' A '')
     \<and> dict_get (format_service ?a '' A  - B - C'' (PyStr ''Outage'') PyNone) ''component''
          = PyStr (strip ''B - C'')" .
  have trimmed: "strip '' A '' = ''A''" "strip ''B - C'' = ''B - C''"
    by (simp_all add: strip_def is_space_def)
  from t2 [THEN conjunct1, rule_format, OF absent]
  have whole: "dict_get (format_service ?a ''Web-hooks -'' (PyStr ''Outage'') PyNone) ''group''
          = PyStr (name ?a)
     \<and> dict_get (format_service ?a ''Web-hooks -'' (PyStr ''Outage'') PyNone) ''component''
          = PyStr ''Web-hooks -''" .
  from t2 [THEN conjunct2, THEN conjunct2, THEN conjunct2, THEN conjunct1]
  have msg: "dict_get (format_service ?a ''Web-hooks -'' (PyStr ''Outage'') PyNone) ''status_message''
          = PyStr ''Outage''" .
  from split whole msg show ?thesis by (simp add: trimmed)
qed

section \<open>Facts about the watcher\<close>

lemma seen_get_add:
  "seen_get (seen_add s nm i) n = (if n = nm then insert i (seen_get s nm) else seen_get s n)"
  by (simp add: seen_get_def seen_add_def)

lemma check_loop_mono:
  "check_loop nm proc incs s = (s', evs, r) \<Longrightarrow> seen_get s n \<subseteq> seen_get s' n"
proof (induction incs arbitrary: s s' evs r)
  case Nil
  then show ?case by simp
next
  case (Cons incident rest)
  let ?i = "dict_get incident ''id''"
  show ?case
  proof (cases "?i \<in> seen_get s nm")
    case True
    with Cons show ?thesis by simp
  next
    case False
    let ?s1 = "seen_add s nm ?i"
    have s1: "seen_get s n \<subseteq> seen_get ?s1 n" by (auto simp: seen_get_add)
    show ?thesis
    proof (cases "proc incident")
      case (Inl e)
      with False Cons.prems have "s' = ?s1" by (simp add: Let_def)
      with s1 show ?thesis by simp
    next
      case (Inr processed)
      obtain s2 evs2 r2 where rest: "check_loop nm proc rest ?s1 = (s2, evs2, r2)"
        by (cases "check_loop nm proc rest ?s1") auto
      with False Inr Cons.prems have "s' = s2" by (simp add: Let_def)
      with Cons.IH [OF rest] s1 show ?thesis by blast
    qed
  qed
qed

lemma check_loop_events:
  "check_loop nm proc incs s = (s', evs, r) \<Longrightarrow> ev \<in> set evs \<Longrightarrow>
     \<exists>inc. (ev = Process nm inc \<or> (\<exists>ps. ev = NewUpdate nm inc ps))
        \<and> inc \<in> set incs
        \<and> dict_get inc ''id'' \<notin> seen_get s nm
        \<and> dict_get inc ''id'' \<in> seen_get s' nm"
proof (induction incs arbitrary: s s' evs r)
  case Nil
  then show ?case by simp
next
  case (Cons incident rest)
  let ?i = "dict_get incident ''id''"
  show ?case
  proof (cases "?i \<in> seen_get s nm")
    case True
    with Cons.prems have "check_loop nm proc rest s = (s', evs, r)" by simp
    from Cons.IH [OF this Cons.prems(2)] show ?thesis by auto
  next
    case False
    let ?s1 = "seen_add s nm ?i"
    have i1: "?i \<in> seen_get ?s1 nm" by (simp add: seen_get_add)
    show ?thesis
    proof (cases "proc incident")
      case (Inl e)
      with False Cons.prems have "s' = ?s1" "evs = [Process nm incident]"
        by (simp_all add: Let_def)
      with Cons.prems(2) False i1 show ?thesis by auto
    next
      case (Inr processed)
      obtain s2 evs2 r2 where rest: "check_loop nm proc rest ?s1 = (s2, evs2, r2)"
        by (cases "check_loop nm proc rest ?s1") auto
      with False Inr Cons.prems
      have s': "s' = s2"
        and evs: "evs = Process nm incident
             # (if processed \<noteq> [] then [NewUpdate nm incident processed] else []) @ evs2"
        by (simp_all add: Let_def)
      from check_loop_mono [OF rest] i1 have i2: "?i \<in> seen_get s2 nm" by blast
      from Cons.prems(2) evs
      consider "ev = Process nm incident" | "ev = NewUpdate nm incident processed"
        | "ev \<in> set evs2"
        by (auto split: if_splits)
      then show ?thesis
      proof cases
        case 1
        with False i2 s' show ?thesis by auto
      next
        case 2
        with False i2 s' show ?thesis by auto
      next
        case 3
        from Cons.IH [OF rest 3] obtain inc where
          inc: "ev = Process nm inc \<or> (\<exists>ps. ev = NewUpdate nm inc ps)" "inc \<in> set rest"
            "dict_get inc ''id'' \<notin> seen_get ?s1 nm" "dict_get inc ''id'' \<in> seen_get s2 nm"
          by blast
        from inc(3) have "dict_get inc ''id'' \<notin> seen_get s nm" by (auto simp: seen_get_add)
        with inc s' show ?thesis by auto
      qed
    qed
  qed
qed

lemma check_loop_complete:
  "check_loop nm proc incs s = (s', evs, None) \<Longrightarrow> inc \<in> set incs \<Longrightarrow>
     dict_get inc ''id'' \<in> seen_get s' nm"
proof (induction incs arbitrary: s s' evs)
  case Nil
  then show ?case by simp
next
  case (Cons incident rest)
  let ?i = "dict_get incident ''id''"
  show ?case
  proof (cases "?i \<in> seen_get s nm")
    case True
    with Cons.prems have rest: "check_loop nm proc rest s = (s', evs, None)" by simp
    show ?thesis
    proof (cases "inc = incident")
      case True
      with \<open>?i \<in> seen_get s nm\<close> check_loop_mono [OF rest] show ?thesis by blast
    next
      case False
      with Cons.prems(2) have "inc \<in> set rest" by simp
      from Cons.IH [OF rest this] show ?thesis .
    qed
  next
    case False
    let ?s1 = "seen_add s nm ?i"
    have i1: "?i \<in> seen_get ?s1 nm" by (simp add: seen_get_add)
    show ?thesis
    proof (cases "proc incident")
      case (Inl e)
      with False Cons.prems show ?thesis by (simp add: Let_def)
    next
      case (Inr processed)
      obtain s2 evs2 r2 where rest: "check_loop nm proc rest ?s1 = (s2, evs2, r2)"
        by (cases "check_loop nm proc rest ?s1") auto
      with False Inr Cons.prems have s': "s' = s2" and r2: "r2 = None"
        by (simp_all add: Let_def)
      show ?thesis
      proof (cases "inc = incident")
        case True
        with i1 check_loop_mono [OF rest] s' show ?thesis by blast
      next
        case False
        with Cons.prems(2) have "inc \<in> set rest" by simp
        from Cons.IH [OF rest [unfolded r2] this] s' show ?thesis by simp
      qed
    qed
  qed
qed

lemma check_loop_all_seen:
  "\<forall>inc \<in> set incs. dict_get inc ''id'' \<in> seen_get s nm \<Longrightarrow>
     check_loop nm proc incs s = (s, [], None)"
  by (induction incs) simp_all


lemma check_loop_source:
  "check_loop nm proc incs s = (s', evs, r) \<Longrightarrow> ev \<in> set evs \<Longrightarrow> source_of ev = nm"
  using check_loop_events by fastforce

lemma check_adapter_mono:
  "check_adapter nm a s = (s', evs) \<Longrightarrow> seen_get s n \<subseteq> seen_get s' n"
  by (auto simp: check_adapter_def split: sum.splits prod.splits option.splits
           dest: check_loop_mono)

lemma check_adapter_source:
  "check_adapter nm a s = (s', evs) \<Longrightarrow> ev \<in> set evs \<Longrightarrow> source_of ev = nm"
  by (auto simp: check_adapter_def split: sum.splits prod.splits option.splits
           dest: check_loop_source)

lemma check_adapter_novel:
  assumes "check_adapter nm a s = (s', evs)" and "ev \<in> set evs"
    and "ev = Process n inc \<or> ev = NewUpdate n inc ps"
  shows "n = nm \<and> dict_get inc ''id'' \<notin> seen_get s nm \<and> dict_get inc ''id'' \<in> seen_get s' nm"
  using assms
  by (auto simp: check_adapter_def split: sum.splits prod.splits option.splits
           dest: check_loop_events)

lemma check_adapter_complete:
  assumes "check_adapter nm a s = (s', evs)" and "fetch_incidents_async a = Inr incs"
    and "\<forall>e. LogError nm e \<notin> set evs" and "inc \<in> set incs"
  shows "dict_get inc ''id'' \<in> seen_get s' nm"
  using assms
  by (auto simp: check_adapter_def split: sum.splits prod.splits option.splits
           dest: check_loop_complete)

lemma check_adapter_all_seen:
  assumes "fetch_incidents_async a = Inr incs"
    and "\<forall>inc \<in> set incs. dict_get inc ''id'' \<in> seen_get s nm"
  shows "check_adapter nm a s = (s, [])"
  using assms by (simp add: check_adapter_def check_loop_all_seen)

lemma check_incidents_mono:
  "check_incidents reg s = (s', evs) \<Longrightarrow> seen_get s n \<subseteq> seen_get s' n"
proof (induction reg arbitrary: s s' evs)
  case Nil
  then show ?case by simp
next
  case (Cons p reg)
  obtain nm a where p: "p = (nm, a)" by (cases p)
  obtain s1 evs1 where a: "check_adapter nm a s = (s1, evs1)" by (cases "check_adapter nm a s")
  obtain s2 evs2 where r: "check_incidents reg s1 = (s2, evs2)"
    by (cases "check_incidents reg s1")
  from Cons.prems p a r have "s' = s2" by simp
  with check_adapter_mono [OF a] Cons.IH [OF r] show ?case by blast
qed

lemma check_incidents_novel:
  assumes "check_incidents reg s = (s', evs)" and "ev \<in> set evs"
    and "ev = Process n inc \<or> ev = NewUpdate n inc ps"
  shows "dict_get inc ''id'' \<notin> seen_get s n \<and> dict_get inc ''id'' \<in> seen_get s' n"
  using assms
proof (induction reg arbitrary: s s' evs)
  case Nil
  then show ?case by simp
next
  case (Cons p reg)
  obtain nm a where p: "p = (nm, a)" by (cases p)
  obtain s1 evs1 where a: "check_adapter nm a s = (s1, evs1)" by (cases "check_adapter nm a s")
  obtain s2 evs2 where r: "check_incidents reg s1 = (s2, evs2)"
    by (cases "check_incidents reg s1")
  from Cons.prems p a r have s': "s' = s2" and evs: "evs = evs1 @ evs2" by simp_all
  from Cons.prems(2) evs consider "ev \<in> set evs1" | "ev \<in> set evs2" by auto
  then show ?case
  proof cases
    case 1
    from check_adapter_novel [OF a 1 Cons.prems(3)]
    have "n = nm" "dict_get inc ''id'' \<notin> seen_get s nm" "dict_get inc ''id'' \<in> seen_get s1 nm"
      by simp_all
    with check_incidents_mono [OF r, of n] s' show ?thesis by blast
  next
    case 2
    from Cons.IH [OF r 2 Cons.prems(3)]
    have "dict_get inc ''id'' \<notin> seen_get s1 n" "dict_get inc ''id'' \<in> seen_get s2 n"
      by simp_all
    with check_adapter_mono [OF a, of n] s' show ?thesis by blast
  qed
qed

lemma check_incidents_complete:
  assumes "check_incidents reg s = (s', evs)" and "(nm, a) \<in> set reg"
    and "fetch_incidents_async a = Inr incs" and "\<forall>e. LogError nm e \<notin> set evs"
    and "inc \<in> set incs"
  shows "dict_get inc ''id'' \<in> seen_get s' nm"
  using assms(1,2,4)
proof (induction reg arbitrary: s s' evs)
  case Nil
  then show ?case by simp
next
  case (Cons p reg)
  obtain nm1 a1 where p: "p = (nm1, a1)" by (cases p)
  obtain s1 evs1 where a: "check_adapter nm1 a1 s = (s1, evs1)"
    by (cases "check_adapter nm1 a1 s")
  obtain s2 evs2 where r: "check_incidents reg s1 = (s2, evs2)"
    by (cases "check_incidents reg s1")
  from Cons.prems(1) p a r have s': "s' = s2" and evs: "evs = evs1 @ evs2" by simp_all
  from Cons.prems(2) p consider "nm1 = nm \<and> a1 = a" | "(nm, a) \<in> set reg" by auto
  then show ?case
  proof cases
    case 1
    from Cons.prems(3) evs have "\<forall>e. LogError nm e \<notin> set evs1" by simp
    with a 1 assms(3,5) have "dict_get inc ''id'' \<in> seen_get s1 nm"
      using check_adapter_complete by blast
    with check_incidents_mono [OF r, of nm] s' show ?thesis by blast
  next
    case 2
    from Cons.prems(3) evs have "\<forall>e. LogError nm e \<notin> set evs2" by simp
    from Cons.IH [OF r 2 this] s' show ?thesis by simp
  qed
qed

lemma check_incidents_quiet:
  assumes "check_incidents reg s = (s', evs)"
    and "\<forall>a. (nm, a) \<in> set reg \<longrightarrow> fetch_incidents_async a = Inr incs"
    and "\<forall>inc \<in> set incs. dict_get inc ''id'' \<in> seen_get s nm"
    and "ev \<in> set evs"
  shows "source_of ev \<noteq> nm"
  using assms
proof (induction reg arbitrary: s s' evs)
  case Nil
  then show ?case by simp
next
  case (Cons p reg)
  obtain nm1 a1 where p: "p = (nm1, a1)" by (cases p)
  obtain s1 evs1 where a: "check_adapter nm1 a1 s = (s1, evs1)"
    by (cases "check_adapter nm1 a1 s")
  obtain s2 evs2 where r: "check_incidents reg s1 = (s2, evs2)"
    by (cases "check_incidents reg s1")
  from Cons.prems(1) p a r have evs: "evs = evs1 @ evs2" by simp
  have reg: "\<forall>a. (nm, a) \<in> set reg \<longrightarrow> fetch_incidents_async a = Inr incs"
    using Cons.prems(2) by simp
  have s1: "\<forall>inc \<in> set incs. dict_get inc ''id'' \<in> seen_get s1 nm"
    using Cons.prems(3) check_adapter_mono [OF a, of nm] by blast
  from Cons.prems(4) evs consider "ev \<in> set evs1" | "ev \<in> set evs2" by auto
  then show ?case
  proof cases
    case 1
    show ?thesis
    proof (cases "nm1 = nm")
      case True
      with Cons.prems(2) p have "fetch_incidents_async a1 = Inr incs" by simp
      from check_adapter_all_seen [OF this] Cons.prems(3) True a have "evs1 = []" by simp
      with 1 show ?thesis by simp
    next
      case False
      with check_adapter_source [OF a 1] show ?thesis by simp
    qed
  next
    case 2
    from Cons.IH [OF r reg s1 2] show ?thesis .
  qed
qed

lemma run_cycles_mono:
  "run_cycles regs s = (s', evs) \<Longrightarrow> seen_get s n \<subseteq> seen_get s' n"
proof (induction regs arbitrary: s s' evs)
  case Nil
  then show ?case by simp
next
  case (Cons reg regs)
  obtain s1 evs1 where a: "check_incidents reg s = (s1, evs1)" by (cases "check_incidents reg s")
  obtain s2 evs2 where r: "run_cycles regs s1 = (s2, evs2)" by (cases "run_cycles regs s1")
  from Cons.prems a r have "s' = s2" by simp
  with check_incidents_mono [OF a] Cons.IH [OF r] show ?case by blast
qed

lemma run_cycles_novel:
  assumes "run_cycles regs s = (s', evs)" and "ev \<in> set evs"
    and "ev = Process n inc \<or> ev = NewUpdate n inc ps"
  shows "dict_get inc ''id'' \<notin> seen_get s n"
  using assms
proof (induction regs arbitrary: s s' evs)
  case Nil
  then show ?case by simp
next
  case (Cons reg regs)
  obtain s1 evs1 where a: "check_incidents reg s = (s1, evs1)" by (cases "check_incidents reg s")
  obtain s2 evs2 where r: "run_cycles regs s1 = (s2, evs2)" by (cases "run_cycles regs s1")
  from Cons.prems a r have evs: "evs = evs1 @ evs2" by simp
  from Cons.prems(2) evs consider "ev \<in> set evs1" | "ev \<in> set evs2" by auto
  then show ?case
  proof cases
    case 1
    from check_incidents_novel [OF a 1 Cons.prems(3)] show ?thesis by simp
  next
    case 2
    from Cons.IH [OF r 2 Cons.prems(3)] check_incidents_mono [OF a, of n] show ?thesis by blast
  qed
qed

section \<open>Duplicate suppression across cycles\<close>

lemma demo_incident_id: "dict_get (demo_incident i) ''id'' = PyStr i"
  by (simp add: demo_incident_def dict_get_def)

lemma flaky_first_cycle:
  "check_incidents [(''openai'', flaky_adapter [demo_incident ''x1'', demo_incident ''x2''])] Map.empty
     = ([''openai'' \<mapsto> {PyStr ''x1''}],
        [Process ''openai'' (demo_incident ''x1''), LogError ''openai'' TransportError])"
  by (simp add: check_adapter_def flaky_adapter_def demo_incident_id seen_get_def seen_add_def)

lemma flaky_second_cycle:
  "check_incidents [(''openai'', flaky_adapter [demo_incident ''x1'', demo_incident ''x2''])]
       [''openai'' \<mapsto> {PyStr ''x1''}]
     = ([''openai'' \<mapsto> {PyStr ''x2'', PyStr ''x1''}],
        [Process ''openai'' (demo_incident ''x2''),
         NewUpdate ''openai'' (demo_incident ''x2'') [demo_record]])"
  by (simp add: check_adapter_def flaky_adapter_def demo_incident_id seen_get_def seen_add_def)

text \<open>
  C1, as amended. When a cycle ends for a source without an exception, every id of the list
  it fetched is in the seen-set of that source, and a following cycle that fetches the
  same list does nothing for that source: no incident is processed, nothing is emitted.
\<close>

theorem unchanged_list_second_cycle_silent:
  assumes "check_incidents reg1 s0 = (s1, evs1)"
    and "(nm, a1) \<in> set reg1" and "fetch_incidents_async a1 = Inr incs"
    and "\<forall>e. LogError nm e \<notin> set evs1"
    and "check_incidents reg2 s1 = (s2, evs2)"
    and "distinct (map fst reg2)" and "(nm, a2) \<in> set reg2"
    and "fetch_incidents_async a2 = Inr incs"
  shows "(\<forall>inc \<in> set incs. dict_get inc ''id'' \<in> seen_get s1 nm)
       \<and> (\<forall>ev \<in> set evs2. source_of ev \<noteq> nm)"
proof
  show marked: "\<forall>inc \<in> set incs. dict_get inc ''id'' \<in> seen_get s1 nm"
    using check_incidents_complete [OF assms(1-4)] by blast
  have "\<forall>a. (nm, a) \<in> set reg2 \<longrightarrow> fetch_incidents_async a = Inr incs"
    using assms(6-8) by (metis eq_key_imp_eq_value)
  from check_incidents_quiet [OF assms(5) this marked]
  show "\<forall>ev \<in> set evs2. source_of ev \<noteq> nm" by blast
qed

theorem unchanged_list_second_cycle_silent_witness:
  "check_incidents [(''openai'', steady_adapter [demo_incident ''x1'', demo_incident ''x2''])] Map.empty
     = ([''openai'' \<mapsto> {PyStr ''x2'', PyStr ''x1''}],
        [Process ''openai'' (demo_incident ''x1''),
         NewUpdate ''openai'' (demo_incident ''x1'') [demo_record],
         Process ''openai'' (demo_incident ''x2''),
         NewUpdate ''openai'' (demo_incident ''x2'') [demo_record]])
   \<and> PyStr ''x1'' \<in> seen_get [''openai'' \<mapsto> {PyStr ''x2'', PyStr ''x1''}] ''openai''
   \<and> \<not> (\<exists>ev \<in> set (snd (check_incidents
                [(''openai'', steady_adapter [demo_incident ''x1'', demo_incident ''x2''])]
                [''openai'' \<mapsto> {PyStr ''x2'', PyStr ''x1''}])).
          source_of ev = ''openai'')"
proof -
  let ?a = "steady_adapter [demo_incident ''x1'', demo_incident ''x2'']"
  let ?reg = "[(''openai'', ?a)]"
  let ?s1 = "[''openai'' \<mapsto> {PyStr ''x2'', PyStr ''x1''}]"
  let ?evs1 = "[Process ''openai'' (demo_incident ''x1''),
         NewUpdate ''openai'' (demo_incident ''x1'') [demo_record],
         Process ''openai'' (demo_incident ''x2''),
         NewUpdate ''openai'' (demo_incident ''x2'') [demo_record]]"
  have c1: "check_incidents ?reg Map.empty = (?s1, ?evs1)"
    by (simp add: check_adapter_def steady_adapter_def demo_incident_id seen_get_def seen_add_def)
  have reg: "(''openai'', ?a) \<in> set ?reg" by simp
  have fetch: "fetch_incidents_async ?a = Inr [demo_incident ''x1'', demo_incident ''x2'']"
    by (simp add: steady_adapter_def)
  have quiet: "\<forall>e. LogError ''openai'' e \<notin> set ?evs1" by simp
  obtain s2 evs2 where c2: "check_incidents ?reg ?s1 = (s2, evs2)"
    by (cases "check_incidents ?reg ?s1")
  have d: "distinct (map fst ?reg)" by simp
  from unchanged_list_second_cycle_silent [OF c1 reg fetch quiet c2 d reg fetch]
  have "PyStr ''x1'' \<in> seen_get ?s1 ''openai''" and "\<forall>ev \<in> set evs2. source_of ev \<noteq> ''openai''"
    by (simp_all add: demo_incident_id)
  with c1 c2 show ?thesis by auto
qed

text \<open>
  C1 as stated fails when processing raises in the first cycle: the loop over the source's
  incidents is left at the first exception, the later ids of the list stay unmarked, and
  the second cycle emits them.
\<close>

theorem unchanged_list_second_cycle_counterexample:
  "fetch_incidents_async (flaky_adapter [demo_incident ''x1'', demo_incident ''x2''])
     = Inr [demo_incident ''x1'', demo_incident ''x2'']
   \<and> dict_get (demo_incident ''x2'') ''id''
       \<notin> seen_get (fst (check_incidents
            [(''openai'', flaky_adapter [demo_incident ''x1'', demo_incident ''x2''])] Map.empty))
          ''openai''
   \<and> NewUpdate ''openai'' (demo_incident ''x2'') [demo_record]
       \<in> set (snd (check_incidents
            [(''openai'', flaky_adapter [demo_incident ''x1'', demo_incident ''x2''])]
            (fst (check_incidents
               [(''openai'', flaky_adapter [demo_incident ''x1'', demo_incident ''x2''])]
               Map.empty))))"
  unfolding flaky_first_cycle fst_conv flaky_second_cycle snd_conv
  by (simp add: demo_incident_id seen_get_def flaky_adapter_def)

section \<open>Marking precedes processing\<close>

text \<open>
  C2. An id that is found new is put into the seen-set before the incident is processed:
  when processing raises, the loop ends with the id marked. An incident that was handed
  to processing in some cycle, whether processing returned or raised, is in the seen-set
  from then on, and no later cycle processes or emits an incident with that id for that
  source again.
\<close>

theorem marked_before_processing_never_again:
  "(dict_get incident ''id'' \<notin> seen_get s nm \<and> proc incident = Inl e \<longrightarrow>
      check_loop nm proc (incident # rest) s
        = (seen_add s nm (dict_get incident ''id''), [Process nm incident], Some e))
   \<and> (check_incidents reg s0 = (s1, evs1) \<and> Process nm inc \<in> set evs1
        \<and> run_cycles regs s1 = (s2, evs2) \<longrightarrow>
        dict_get inc ''id'' \<in> seen_get s1 nm \<and> dict_get inc ''id'' \<in> seen_get s2 nm
        \<and> (\<forall>inc' ps. dict_get inc' ''id'' = dict_get inc ''id'' \<longrightarrow>
              Process nm inc' \<notin> set evs2 \<and> NewUpdate nm inc' ps \<notin> set evs2))"
proof (intro conjI impI)
  assume "dict_get incident ''id'' \<notin> seen_get s nm \<and> proc incident = Inl e"
  then show "check_loop nm proc (incident # rest) s
        = (seen_add s nm (dict_get incident ''id''), [Process nm incident], Some e)"
    by (simp add: Let_def)
next
  assume h: "check_incidents reg s0 = (s1, evs1) \<and> Process nm inc \<in> set evs1
        \<and> run_cycles regs s1 = (s2, evs2)"
  then have c: "check_incidents reg s0 = (s1, evs1)" and p: "Process nm inc \<in> set evs1"
    and r: "run_cycles regs s1 = (s2, evs2)" by simp_all
  from check_incidents_novel [OF c p] show m1: "dict_get inc ''id'' \<in> seen_get s1 nm" by simp
  with run_cycles_mono [OF r, of nm] show "dict_get inc ''id'' \<in> seen_get s2 nm" by blast
  show "\<forall>inc' ps. dict_get inc' ''id'' = dict_get inc ''id'' \<longrightarrow>
              Process nm inc' \<notin> set evs2 \<and> NewUpdate nm inc' ps \<notin> set evs2"
  proof (intro allI impI conjI)
    fix inc' ps
    assume same: "dict_get inc' ''id'' = dict_get inc ''id''"
    show "Process nm inc' \<notin> set evs2"
    proof
      assume "Process nm inc' \<in> set evs2"
      from run_cycles_novel [OF r this] same m1 show False by simp
    qed
    show "NewUpdate nm inc' ps \<notin> set evs2"
    proof
      assume "NewUpdate nm inc' ps \<in> set evs2"
      from run_cycles_novel [OF r this] same m1 show False by simp
    qed
  qed
qed

theorem marked_before_processing_never_again_witness:
  "process_incident (flaky_adapter [demo_incident ''x1'', demo_incident ''x2''])
       (demo_incident ''x1'') = Inl TransportError
   \<and> check_incidents [(''openai'', flaky_adapter [demo_incident ''x1'', demo_incident ''x2''])]
        Map.empty
      = ([''openai'' \<mapsto> {PyStr ''x1''}],
         [Process ''openai'' (demo_incident ''x1''), LogError ''openai'' TransportError])
   \<and> PyStr ''x1'' \<in> seen_get [''openai'' \<mapsto> {PyStr ''x1''}] ''openai''
   \<and> Process ''openai'' (demo_incident ''x1'')
       \<notin> set (snd (run_cycles
            [[(''openai'', steady_adapter [demo_incident ''x1'', demo_incident ''x2''])],
             [(''openai'', flaky_adapter [demo_incident ''x1'', demo_incident ''x2''])]]
            [''openai'' \<mapsto> {PyStr ''x1''}]))
   \<and> NewUpdate ''openai'' (demo_incident ''x1'') [demo_record]
       \<notin> set (snd (run_cycles
            [[(''openai'', steady_adapter [demo_incident ''x1'', demo_incident ''x2''])],
             [(''openai'', flaky_adapter [demo_incident ''x1'', demo_incident ''x2''])]]
            [''openai'' \<mapsto> {PyStr ''x1''}]))"
proof -
  let ?x1 = "demo_incident ''x1''"
  let ?flaky = "[(''openai'', flaky_adapter [demo_incident ''x1'', demo_incident ''x2''])]"
  let ?steady = "[(''openai'', steady_adapter [demo_incident ''x1'', demo_incident ''x2''])]"
  let ?s1 = "[''openai'' \<mapsto> {PyStr ''x1''}]"
  let ?evs1 = "[Process ''openai'' ?x1, LogError ''openai'' TransportError]"
  have raised: "process_incident (flaky_adapter [demo_incident ''x1'', demo_incident ''x2'']) ?x1
      = Inl TransportError"
    by (simp add: flaky_adapter_def demo_incident_id)
  have c: "check_incidents ?flaky Map.empty = (?s1, ?evs1)" by (rule flaky_first_cycle)
  have p: "Process ''openai'' ?x1 \<in> set ?evs1" by simp
  obtain s2 evs2 where r: "run_cycles [?steady, ?flaky] ?s1 = (s2, evs2)"
    by (cases "run_cycles [?steady, ?flaky] ?s1")
  from marked_before_processing_never_again
         [of ?x1 Map.empty "''openai''" "\<lambda>i. Inl TransportError" TransportError "[]"
             ?flaky Map.empty ?s1 ?evs1 ?x1 "[?steady, ?flaky]" s2 evs2] c p r
  have "dict_get ?x1 ''id'' \<in> seen_get ?s1 ''openai''"
    and "Process ''openai'' ?x1 \<notin> set evs2"
    and "NewUpdate ''openai'' ?x1 [demo_record] \<notin> set evs2"
    by blast+
  with raised c r show ?thesis by (simp add: demo_incident_id)
qed

section \<open>The baseline pass and the first cycle\<close>

lemma show_processed_quiet:
  "show_processed nm inc n c ps = (evs, c') \<Longrightarrow> ev \<in> set evs \<Longrightarrow> \<not> is_new_update ev"
  by (induction ps arbitrary: c evs c') (auto simp: Let_def split: prod.splits if_splits)

lemma initial_loop_quiet:
  "initial_loop nm proc n incs c s = (s', evs, r) \<Longrightarrow> ev \<in> set evs \<Longrightarrow> \<not> is_new_update ev"
proof (induction incs arbitrary: c s s' evs r)
  case Nil
  then show ?case by simp
next
  case (Cons incident rest)
  let ?s1 = "seen_add s nm (dict_get incident ''id'')"
  show ?case
  proof (cases "proc incident")
    case (Inl e)
    with Cons.prems show ?thesis by (auto simp: Let_def)
  next
    case (Inr processed)
    obtain shown c1 where sh: "show_processed nm incident n c processed = (shown, c1)"
      by (cases "show_processed nm incident n c processed")
    obtain s2 evs2 r2 where rest: "initial_loop nm proc n rest c1 ?s1 = (s2, evs2, r2)"
      by (cases "initial_loop nm proc n rest c1 ?s1") auto
    from Cons.prems(1) Inr sh rest have "evs = Process nm incident # shown @ evs2"
      by (simp add: Let_def)
    with Cons.prems(2) consider "ev = Process nm incident" | "ev \<in> set shown" | "ev \<in> set evs2"
      by auto
    then show ?thesis
    proof cases
      case 1
      then show ?thesis by simp
    next
      case 2
      from show_processed_quiet [OF sh 2] show ?thesis .
    next
      case 3
      from Cons.IH [OF rest 3] show ?thesis .
    qed
  qed
qed

lemma initial_adapter_quiet:
  "initial_adapter nm a s = (s', evs) \<Longrightarrow> ev \<in> set evs \<Longrightarrow> \<not> is_new_update ev"
  by (auto simp: initial_adapter_def split: sum.splits if_splits prod.splits option.splits
           dest: initial_loop_quiet)

lemma show_initial_status_quiet:
  "show_initial_status reg s = (s', evs) \<Longrightarrow> ev \<in> set evs \<Longrightarrow> \<not> is_new_update ev"
proof (induction reg arbitrary: s s' evs)
  case Nil
  then show ?case by simp
next
  case (Cons p reg)
  obtain nm a where p: "p = (nm, a)" by (cases p)
  obtain s1 evs1 where a: "initial_adapter nm a s = (s1, evs1)"
    by (cases "initial_adapter nm a s")
  obtain s2 evs2 where r: "show_initial_status reg s1 = (s2, evs2)"
    by (cases "show_initial_status reg s1")
  from Cons.prems(1) p a r have "evs = evs1 @ evs2" by simp
  with Cons.prems(2) consider "ev \<in> set evs1" | "ev \<in> set evs2" by auto
  then show ?case
  proof cases
    case 1
    from initial_adapter_quiet [OF a 1] show ?thesis .
  next
    case 2
    from Cons.IH [OF r 2] show ?thesis .
  qed
qed

lemma initial_loop_marks:
  "initial_loop nm proc n incs c s = (s', evs, None) \<Longrightarrow>
     seen_get s' nm = seen_get s nm \<union> (\<lambda>i. dict_get i ''id'') ` set incs"
proof (induction incs arbitrary: c s s' evs)
  case Nil
  then show ?case by simp
next
  case (Cons incident rest)
  let ?s1 = "seen_add s nm (dict_get incident ''id'')"
  show ?case
  proof (cases "proc incident")
    case (Inl e)
    with Cons.prems show ?thesis by (simp add: Let_def)
  next
    case (Inr processed)
    obtain shown c1 where sh: "show_processed nm incident n c processed = (shown, c1)"
      by (cases "show_processed nm incident n c processed")
    obtain s2 evs2 r2 where rest: "initial_loop nm proc n rest c1 ?s1 = (s2, evs2, r2)"
      by (cases "initial_loop nm proc n rest c1 ?s1") auto
    from Cons.prems(1) Inr sh rest have "s' = s2" and r2: "r2 = None" by (simp_all add: Let_def)
    with Cons.IH [OF rest [unfolded r2]] show ?thesis by (auto simp: seen_get_add)
  qed
qed

lemma initial_loop_no_status_error:
  "initial_loop nm proc n incs c s = (s', evs, r) \<Longrightarrow> StatusError nm e \<notin> set evs"
proof (induction incs arbitrary: c s s' evs r)
  case Nil
  then show ?case by simp
next
  case (Cons incident rest)
  let ?s1 = "seen_add s nm (dict_get incident ''id'')"
  show ?case
  proof (cases "proc incident")
    case (Inl e)
    with Cons.prems show ?thesis by (auto simp: Let_def)
  next
    case (Inr processed)
    obtain shown c1 where sh: "show_processed nm incident n c processed = (shown, c1)"
      by (cases "show_processed nm incident n c processed")
    obtain s2 evs2 r2 where rest: "initial_loop nm proc n rest c1 ?s1 = (s2, evs2, r2)"
      by (cases "initial_loop nm proc n rest c1 ?s1") auto
    have "StatusError nm e \<notin> set shown"
      using sh by (induction processed arbitrary: c shown c1)
        (auto simp: Let_def split: prod.splits if_splits)
    moreover from Cons.prems(1) Inr sh rest have "evs = Process nm incident # shown @ evs2"
      by (simp add: Let_def)
    ultimately show ?thesis using Cons.IH [OF rest] by simp
  qed
qed

lemma initial_adapter_marks:
  assumes "initial_adapter nm a s = (s1, evs1)" and "fetch_incidents_async a = Inr incs"
    and "\<forall>e. StatusError nm e \<notin> set evs1"
  shows "seen_get s1 nm = seen_get s nm \<union> (\<lambda>i. dict_get i ''id'') ` set (take 3 incs)"
proof (cases "incs = []")
  case True
  with assms show ?thesis by (simp add: initial_adapter_def)
next
  case False
  obtain s2 evs2 r where l: "initial_loop nm (process_incident a) (length incs) (take 3 incs) 0 s
      = (s2, evs2, r)"
    by (cases "initial_loop nm (process_incident a) (length incs) (take 3 incs) 0 s") auto
  show ?thesis
  proof (cases r)
    case None
    with assms(1,2) False l have "s1 = s2" by (simp add: initial_adapter_def)
    with initial_loop_marks [OF l [unfolded None]] show ?thesis by simp
  next
    case (Some e)
    with assms(1,2) False l have "StatusError nm e \<in> set evs1"
      by (auto simp: initial_adapter_def)
    with assms(3) show ?thesis by blast
  qed
qed

lemma baseline_single:
  assumes "fetch_incidents_async a0 = Inr [i1]"
  shows "fst (show_initial_status [(nm, a0)] Map.empty) = [nm \<mapsto> {dict_get i1 ''id''}]"
  using assms
  by (cases "process_incident a0 i1")
    (auto simp: initial_adapter_def Let_def seen_add_def seen_get_def
          split: prod.splits option.splits)

lemma cycle_after_baseline:
  assumes "fetch_incidents_async a1 = Inr [i1, i2]"
    and "dict_get i2 ''id'' \<noteq> dict_get i1 ''id''"
  shows "snd (check_incidents [(nm, a1)] [nm \<mapsto> {dict_get i1 ''id''}])
         = (case process_incident a1 i2 of
              Inl e \<Rightarrow> [Process nm i2, LogError nm e]
            | Inr ps \<Rightarrow> Process nm i2 # (if ps \<noteq> [] then [NewUpdate nm i2 ps] else []))"
  using assms
  by (auto simp: check_adapter_def Let_def seen_add_def seen_get_def split: sum.splits)


text \<open>
  C3, as amended. The baseline pass of \<open>show_initial_status\<close> never prints a
  \<open>NEW UPDATE\<close> notice (it prints the processed records in the startup box). For a
  source whose fetch succeeds and whose baseline pass ends without an exception, the ids
  added to its seen-set are exactly the ids of the first three fetched incidents. In the
  scenario where a source returns \<open>[i1]\<close> at baseline and \<open>[i1, i2]\<close> in the first
  cycle, with different ids, and processing \<open>i2\<close> gives a non-empty list of records, the
  whole run prints exactly one \<open>NEW UPDATE\<close> notice, the one for \<open>i2\<close>.
\<close>

theorem baseline_then_first_cycle:
  "(show_initial_status reg s = (s', evs) \<longrightarrow> (\<forall>ev \<in> set evs. \<not> is_new_update ev))
   \<and> (initial_adapter nm a s = (s1, evs1) \<and> fetch_incidents_async a = Inr incs
        \<and> (\<forall>e. StatusError nm e \<notin> set evs1) \<longrightarrow>
        seen_get s1 nm = seen_get s nm \<union> (\<lambda>i. dict_get i ''id'') ` set (take 3 incs))
   \<and> (fetch_incidents_async a0 = Inr [i1] \<and> fetch_incidents_async a1 = Inr [i1, i2]
        \<and> dict_get i2 ''id'' \<noteq> dict_get i1 ''id''
        \<and> process_incident a1 i2 = Inr ps \<and> ps \<noteq> [] \<longrightarrow>
        filter is_new_update (snd (start_monitoring [(nm, a0)] [[(nm, a1)]]))
          = [NewUpdate nm i2 ps])"
proof (intro conjI impI)
  assume "show_initial_status reg s = (s', evs)"
  then show "\<forall>ev \<in> set evs. \<not> is_new_update ev"
    using show_initial_status_quiet by blast
next
  assume "initial_adapter nm a s = (s1, evs1) \<and> fetch_incidents_async a = Inr incs
        \<and> (\<forall>e. StatusError nm e \<notin> set evs1)"
  then show "seen_get s1 nm = seen_get s nm \<union> (\<lambda>i. dict_get i ''id'') ` set (take 3 incs)"
    using initial_adapter_marks by blast
next
  assume h: "fetch_incidents_async a0 = Inr [i1] \<and> fetch_incidents_async a1 = Inr [i1, i2]
        \<and> dict_get i2 ''id'' \<noteq> dict_get i1 ''id''
        \<and> process_incident a1 i2 = Inr ps \<and> ps \<noteq> []"
  obtain s1 evs1 where b: "show_initial_status [(nm, a0)] Map.empty = (s1, evs1)"
    by (cases "show_initial_status [(nm, a0)] Map.empty")
  from h baseline_single [of a0 i1 nm] b have s1: "s1 = [nm \<mapsto> {dict_get i1 ''id''}]" by simp
  have quiet: "filter is_new_update evs1 = []"
    using show_initial_status_quiet [OF b] by (simp add: filter_empty_conv)
  obtain s2 evs2 where c: "check_incidents [(nm, a1)] s1 = (s2, evs2)"
    by (cases "check_incidents [(nm, a1)] s1")
  from h cycle_after_baseline [of a1 i1 i2 nm] c s1
  have evs2: "evs2 = [Process nm i2, NewUpdate nm i2 ps]" by simp
  have "snd (start_monitoring [(nm, a0)] [[(nm, a1)]]) = evs1 @ evs2"
    using b c by (simp add: start_monitoring_def)
  with quiet evs2
  show "filter is_new_update (snd (start_monitoring [(nm, a0)] [[(nm, a1)]]))
          = [NewUpdate nm i2 ps]"
    by simp
qed

lemma steady_baseline:
  "show_initial_status [(''openai'', steady_adapter [demo_incident ''x1''])] Map.empty
     = ([''openai'' \<mapsto> {PyStr ''x1''}],
        [StatusHeader ''openai'', Process ''openai'' (demo_incident ''x1''),
         StatusEntry ''openai'' (demo_incident ''x1'') demo_record, StatusFooter ''openai''])"
  by (simp add: initial_adapter_def steady_adapter_def demo_incident_id seen_get_def seen_add_def)

lemma flaky_baseline:
  "show_initial_status
       [(''openai'', flaky_adapter [demo_incident ''x1'', demo_incident ''x2''])] Map.empty
     = ([''openai'' \<mapsto> {PyStr ''x1''}],
        [StatusHeader ''openai'', Process ''openai'' (demo_incident ''x1''),
         StatusError ''openai'' TransportError])"
  by (simp add: initial_adapter_def flaky_adapter_def demo_incident_id seen_get_def seen_add_def)

lemma failing_cycle:
  "check_incidents [(''openai'', failing_adapter [demo_incident ''x1'', demo_incident ''x2''])]
       [''openai'' \<mapsto> {PyStr ''x1''}]
     = ([''openai'' \<mapsto> {PyStr ''x2'', PyStr ''x1''}],
        [Process ''openai'' (demo_incident ''x2''), LogError ''openai'' TransportError])"
  by (simp add: check_adapter_def failing_adapter_def demo_incident_id seen_get_def seen_add_def)

theorem baseline_then_first_cycle_witness:
  "\<not> (\<exists>ev \<in> set (snd (show_initial_status
            [(''openai'', steady_adapter [demo_incident ''x1''])] Map.empty)). is_new_update ev)
   \<and> seen_get (fst (initial_adapter ''openai''
         (steady_adapter [demo_incident ''x1'', demo_incident ''x2'', demo_incident ''x3'',
                          demo_incident ''x4'']) Map.empty)) ''openai''
       = {PyStr ''x1'', PyStr ''x2'', PyStr ''x3''}
   \<and> filter is_new_update (snd (start_monitoring
         [(''openai'', steady_adapter [demo_incident ''x1''])]
         [[(''openai'', steady_adapter [demo_incident ''x1'', demo_incident ''x2''])]]))
       = [NewUpdate ''openai'' (demo_incident ''x2'') [demo_record]]"
proof -
  let ?a0 = "steady_adapter [demo_incident ''x1'']"
  let ?a1 = "steady_adapter [demo_incident ''x1'', demo_incident ''x2'']"
  let ?a4 = "steady_adapter [demo_incident ''x1'', demo_incident ''x2'', demo_incident ''x3'',
                          demo_incident ''x4'']"
  obtain s' evs where b: "show_initial_status [(''openai'', ?a0)] Map.empty = (s', evs)"
    by (cases "show_initial_status [(''openai'', ?a0)] Map.empty")
  obtain s1 evs1 where i: "initial_adapter ''openai'' ?a4 Map.empty = (s1, evs1)"
    by (cases "initial_adapter ''openai'' ?a4 Map.empty")
  have f4: "fetch_incidents_async ?a4 = Inr [demo_incident ''x1'', demo_incident ''x2'',
      demo_incident ''x3'', demo_incident ''x4'']"
    by (simp add: steady_adapter_def)
  have no_error: "\<forall>e. StatusError ''openai'' e \<notin> set evs1"
    using i by (auto simp: initial_adapter_def steady_adapter_def Let_def)
  have f0: "fetch_incidents_async ?a0 = Inr [demo_incident ''x1'']"
    and f1: "fetch_incidents_async ?a1 = Inr [demo_incident ''x1'', demo_incident ''x2'']"
    and p: "process_incident ?a1 (demo_incident ''x2'') = Inr [demo_record]"
    by (simp_all add: steady_adapter_def)
  have ne: "dict_get (demo_incident ''x2'') ''id'' \<noteq> dict_get (demo_incident ''x1'') ''id''"
    by (simp add: demo_incident_id)
  note t = baseline_then_first_cycle
      [of "[(''openai'', ?a0)]" Map.empty s' evs "''openai''" ?a4 s1 evs1
          "[demo_incident ''x1'', demo_incident ''x2'', demo_incident ''x3'', demo_incident ''x4'']"
          ?a0 "demo_incident ''x1''" ?a1 "demo_incident ''x2''" "[demo_record]"]
  from t b have "\<forall>ev \<in> set evs. \<not> is_new_update ev" by blast
  moreover from t i f4 no_error
  have "seen_get s1 ''openai'' = seen_get Map.empty ''openai''
      \<union> (\<lambda>i. dict_get i ''id'') ` set (take 3 [demo_incident ''x1'', demo_incident ''x2'',
            demo_incident ''x3'', demo_incident ''x4''])"
    by blast
  then have "seen_get s1 ''openai'' = {PyStr ''x1'', PyStr ''x2'', PyStr ''x3''}"
    by (simp add: demo_incident_id seen_get_def)
  moreover from t f0 f1 ne p
  have "filter is_new_update (snd (start_monitoring [(''openai'', ?a0)] [[(''openai'', ?a1)]]))
       = [NewUpdate ''openai'' (demo_incident ''x2'') [demo_record]]"
    by blast
  ultimately show ?thesis using b i by simp
qed

text \<open>
  C3 as stated fails in three ways. When processing the first baseline incident raises,
  the second one is not marked although it is among the three most recent, and the next
  cycle announces it as new. The baseline prints the records it processed. And in the
  scenario no record is emitted when processing of the new incident raises.
\<close>

theorem baseline_then_first_cycle_counterexample:
  "PyStr ''x2'' \<notin> seen_get (fst (show_initial_status
        [(''openai'', flaky_adapter [demo_incident ''x1'', demo_incident ''x2''])] Map.empty))
      ''openai''
   \<and> NewUpdate ''openai'' (demo_incident ''x2'') [demo_record]
       \<in> set (snd (start_monitoring
            [(''openai'', flaky_adapter [demo_incident ''x1'', demo_incident ''x2''])]
            [[(''openai'', flaky_adapter [demo_incident ''x1'', demo_incident ''x2''])]]))
   \<and> StatusEntry ''openai'' (demo_incident ''x1'') demo_record
       \<in> set (snd (show_initial_status
            [(''openai'', steady_adapter [demo_incident ''x1''])] Map.empty))
   \<and> filter is_new_update (snd (start_monitoring
         [(''openai'', steady_adapter [demo_incident ''x1''])]
         [[(''openai'', failing_adapter [demo_incident ''x1'', demo_incident ''x2''])]]))
       = []"
  unfolding start_monitoring_def run_cycles.simps flaky_baseline steady_baseline
    prod.case flaky_second_cycle failing_cycle fst_conv snd_conv
  by (simp add: seen_get_def)

section \<open>The cascade stops at the first success\<close>

lemma format_incidents_fallback_irrelevant:
  "format_incidents (a\<lparr>extract_fallback_services := fb\<rparr>) services title pub_date
     = format_incidents a services title pub_date"
  by (simp add: format_incidents_def format_service_def)

lemma parse_incident_page_fallback_irrelevant:
  "parse_incident_page ev (a\<lparr>extract_fallback_services := fb\<rparr>) = parse_incident_page ev a"
  by (rule ext) (simp add: parse_incident_page_def)

lemma page_strategy_fallback_irrelevant:
  "page_strategy ev (a\<lparr>extract_fallback_services := fb\<rparr>) link = page_strategy ev a link"
  by (cases link) (simp_all add: page_strategy_def parse_incident_page_fallback_irrelevant)

text \<open>
  C6. The cascade stops at the first strategy with a non-empty result. When the embedded
  list gives services, the result is their records whatever the page request and the
  fallback would do (they may even raise). When the embedded list gives nothing and the
  page strategy applies and gives services, the result is their records whatever the
  fallback would do. In both cases the records come from one strategy alone.
\<close>

theorem cascade_short_circuit:
  "(extract_services_from_html (html_unescape ev)
        (dict_get_default incident ''description'' (PyStr [])) = s1 \<and> s1 \<noteq> [] \<longrightarrow>
      (\<forall>page fb.
         process_incident_async (ev\<lparr>get_affected_services_async := page\<rparr>)
             (a\<lparr>extract_fallback_services := fb\<rparr>) incident
           = Inr (format_incidents a s1
                    (dict_get_default incident ''title'' (PyStr ''Unknown Incident''))
                    (dict_get_default incident ''pub_date'' (PyStr ''Unknown Time'')))))
   \<and> (extract_services_from_html (html_unescape ev)
        (dict_get_default incident ''description'' (PyStr [])) = []
      \<and> incident_parser_type a = Some t \<and> t \<noteq> []
      \<and> dict_get_default incident ''link'' (PyStr []) = PyStr url \<and> url \<noteq> [] \<and> url \<noteq> ''N/A''
      \<and> get_affected_services_async ev url t = Inr s2 \<and> s2 \<noteq> [] \<longrightarrow>
      (\<forall>fb.
         process_incident_async ev (a\<lparr>extract_fallback_services := fb\<rparr>) incident
           = Inr (format_incidents a s2
                    (dict_get_default incident ''title'' (PyStr ''Unknown Incident''))
                    (dict_get_default incident ''pub_date'' (PyStr ''Unknown Time'')))))"
proof (intro conjI impI allI)
  fix page fb
  assume "extract_services_from_html (html_unescape ev)
        (dict_get_default incident ''description'' (PyStr [])) = s1 \<and> s1 \<noteq> []"
  then show "process_incident_async (ev\<lparr>get_affected_services_async := page\<rparr>)
             (a\<lparr>extract_fallback_services := fb\<rparr>) incident
           = Inr (format_incidents a s1
                    (dict_get_default incident ''title'' (PyStr ''Unknown Incident''))
                    (dict_get_default incident ''pub_date'' (PyStr ''Unknown Time'')))"
    by (simp add: process_incident_async_def Let_def format_incidents_fallback_irrelevant)
next
  fix fb
  assume h: "extract_services_from_html (html_unescape ev)
        (dict_get_default incident ''description'' (PyStr [])) = []
      \<and> incident_parser_type a = Some t \<and> t \<noteq> []
      \<and> dict_get_default incident ''link'' (PyStr []) = PyStr url \<and> url \<noteq> [] \<and> url \<noteq> ''N/A''
      \<and> get_affected_services_async ev url t = Inr s2 \<and> s2 \<noteq> []"
  then have "page_strategy ev a (PyStr url) = Some s2"
    by (simp add: page_strategy_def parse_incident_page_def)
  with h show "process_incident_async ev (a\<lparr>extract_fallback_services := fb\<rparr>) incident
           = Inr (format_incidents a s2
                    (dict_get_default incident ''title'' (PyStr ''Unknown Incident''))
                    (dict_get_default incident ''pub_date'' (PyStr ''Unknown Time'')))"
    by (simp add: process_incident_async_def Let_def format_incidents_fallback_irrelevant
        page_strategy_fallback_irrelevant)
qed

lemma listed_services:
  "extract_services_from_html (\<lambda>s. s) (PyStr ''<ul><li>API (Degraded)</li></ul>'') = [''API'']"
  by code_simp

lemma plain_services:
  "extract_services_from_html (\<lambda>s. s) (PyStr ''Investigating'') = []"
  by code_simp

theorem cascade_short_circuit_witness:
  "process_incident_async offline (BolnaAdapter\<lparr>extract_fallback_services := (\<lambda>i. Inl AttributeError)\<rparr>)
       listed_incident
     = Inr [impact ''Bolna'' ''API'' (PyStr ''2025-11-03T14:32:00Z'') (PyStr ''Elevated errors'')]
   \<and> process_incident_async online (BolnaAdapter\<lparr>extract_fallback_services := (\<lambda>i. Inl AttributeError)\<rparr>)
       plain_incident
     = Inr [impact ''Voice'' ''Calls'' (PyStr ''2025-11-03T14:32:00Z'') (PyStr ''Elevated errors'')]"
proof -
  have d1: "dict_get_default listed_incident ''description'' (PyStr [])
      = PyStr ''<ul><li>API (Degraded)</li></ul>''"
    and t1: "dict_get_default listed_incident ''title'' (PyStr ''Unknown Incident'')
      = PyStr ''Elevated errors''"
    and p1: "dict_get_default listed_incident ''pub_date'' (PyStr ''Unknown Time'')
      = PyStr ''2025-11-03T14:32:00Z''"
    by (simp_all add: listed_incident_def dict_get_default_def)
  have d2: "dict_get_default plain_incident ''description'' (PyStr []) = PyStr ''Investigating''"
    and t2: "dict_get_default plain_incident ''title'' (PyStr ''Unknown Incident'')
      = PyStr ''Elevated errors''"
    and p2: "dict_get_default plain_incident ''pub_date'' (PyStr ''Unknown Time'')
      = PyStr ''2025-11-03T14:32:00Z''"
    and l2: "dict_get_default plain_incident ''link'' (PyStr [])
      = PyStr ''https://status.example.com/incidents/43''"
    by (simp_all add: plain_incident_def dict_get_default_def)
  have f1: "format_incidents BolnaAdapter [''API''] (PyStr ''Elevated errors'')
        (PyStr ''2025-11-03T14:32:00Z'')
      = [impact ''Bolna'' ''API'' (PyStr ''2025-11-03T14:32:00Z'') (PyStr ''Elevated errors'')]"
    by (simp add: format_incidents_def format_service_def BolnaAdapter_def)
  have f2: "format_incidents BolnaAdapter [''Voice - Calls''] (PyStr ''Elevated errors'')
        (PyStr ''2025-11-03T14:32:00Z'')
      = [impact ''Voice'' ''Calls'' (PyStr ''2025-11-03T14:32:00Z'') (PyStr ''Elevated errors'')]"
    by (simp add: format_incidents_def format_service_def BolnaAdapter_def strip_def is_space_def)
  have e1: "extract_services_from_html (html_unescape offline)
        (dict_get_default listed_incident ''description'' (PyStr [])) = [''API'']"
    by (simp add: d1 offline_def listed_services)
  have e2: "extract_services_from_html (html_unescape online)
        (dict_get_default plain_incident ''description'' (PyStr [])) = []"
    by (simp add: d2 online_def plain_services)
  have a1: "process_incident_async
        (offline\<lparr>get_affected_services_async := (\<lambda>url t. Inl TransportError)\<rparr>)
        (BolnaAdapter\<lparr>extract_fallback_services := (\<lambda>i. Inl AttributeError)\<rparr>) listed_incident
      = Inr (format_incidents BolnaAdapter [''API'']
               (dict_get_default listed_incident ''title'' (PyStr ''Unknown Incident''))
               (dict_get_default listed_incident ''pub_date'' (PyStr ''Unknown Time'')))"
    using cascade_short_circuit [of offline listed_incident "[''API'']" BolnaAdapter,
        THEN conjunct1, rule_format, of "\<lambda>url t. Inl TransportError" "\<lambda>i. Inl AttributeError"]
      e1
    by simp
  have pt: "incident_parser_type BolnaAdapter = Some ''bolna''"
    by (simp add: BolnaAdapter_def)
  have pg: "get_affected_services_async online ''https://status.example.com/incidents/43'' ''bolna''
      = Inr [''Voice - Calls'']"
    by (simp add: online_def)
  have a2: "process_incident_async online
        (BolnaAdapter\<lparr>extract_fallback_services := (\<lambda>i. Inl AttributeError)\<rparr>) plain_incident
      = Inr (format_incidents BolnaAdapter [''Voice - Calls'']
               (dict_get_default plain_incident ''title'' (PyStr ''Unknown Incident''))
               (dict_get_default plain_incident ''pub_date'' (PyStr ''Unknown Time'')))"
    using cascade_short_circuit [of online plain_incident _ BolnaAdapter "''bolna''"
        "''https://status.example.com/incidents/43''" "[''Voice - Calls'']",
        THEN conjunct2, rule_format, of "\<lambda>i. Inl AttributeError"]
      e2 l2 pt pg
    by simp
  have "offline\<lparr>get_affected_services_async := (\<lambda>url t. Inl TransportError)\<rparr> = offline"
    by (simp add: offline_def)
  with a1 a2 show ?thesis by (simp add: t1 p1 t2 p2 f1 f2)
qed

section \<open>The terminal fallback\<close>

lemma lower_twilio: "lower ''Twilio outage'' = ''twilio outage''"
  by code_simp

lemma bolna_fallback_twilio:
  "bolna_fallback (parse_item unlinked_item) = Inr [''Twilio'']"
  by (simp add: bolna_fallback_def parse_item_def unlinked_item_def dict_get_default_def
      elem_value_def lower_twilio)

text \<open>
  C7. The code departs from the claim on an item whose \<open>title\<close> element has no text: the
  parser stores \<open>None\<close> as the title, the embedded list is empty, the page request fails
  and is swallowed, and the keyword fallback raises \<open>AttributeError\<close> instead of
  returning a service.
\<close>

theorem fallback_raises_on_empty_title:
  "dict_get (parse_item untitled_item) ''title'' = PyNone
   \<and> extract_services_from_html (html_unescape offline)
        (dict_get_default (parse_item untitled_item) ''description'' (PyStr [])) = []
   \<and> parse_incident_page offline BolnaAdapter ''https://status.bolna.ai/incident/7''
        = Inl TransportError
   \<and> process_incident_async offline BolnaAdapter (parse_item untitled_item) = Inl AttributeError"
proof -
  have d: "dict_get_default (parse_item untitled_item) ''description'' (PyStr [])
      = PyStr ''Investigating''"
    and l: "dict_get_default (parse_item untitled_item) ''link'' (PyStr [])
      = PyStr ''https://status.bolna.ai/incident/7''"
    and t: "dict_get_default (parse_item untitled_item) ''title'' (PyStr []) = PyNone"
    and t': "dict_get (parse_item untitled_item) ''title'' = PyNone"
    by (simp_all add: parse_item_def untitled_item_def dict_get_default_def dict_get_def
        elem_value_def)
  have s1: "extract_services_from_html (html_unescape offline) (PyStr ''Investigating'') = []"
    by (simp add: offline_def plain_services)
  have pg: "parse_incident_page offline BolnaAdapter ''https://status.bolna.ai/incident/7''
      = Inl TransportError"
    by (simp add: parse_incident_page_def BolnaAdapter_def offline_def)
  then have s2: "page_strategy offline BolnaAdapter (PyStr ''https://status.bolna.ai/incident/7'')
      = None"
    by (simp add: page_strategy_def)
  have s3: "extract_fallback_services BolnaAdapter (parse_item untitled_item) = Inl AttributeError"
    by (simp add: BolnaAdapter_def bolna_fallback_def t)
  show ?thesis
    by (simp add: process_incident_async_def Let_def d l t' s1 s2 s3 pg)
qed

lemma bolna_fallback_nonempty:
  "dict_get_default incident ''title'' (PyStr []) = PyStr t \<Longrightarrow>
     \<exists>fs. bolna_fallback incident = Inr fs \<and> fs \<noteq> []"
  by (simp add: bolna_fallback_def Let_def)

lemma claude_fallback_nonempty:
  "dict_get_default incident ''title'' (PyStr []) = PyStr t \<Longrightarrow>
     \<exists>fs. claude_fallback incident = Inr fs \<and> fs \<noteq> []"
  by (simp add: claude_fallback_def Let_def)

lemma page_strategy_nonempty: "page_strategy ev a link = Some sp \<Longrightarrow> sp \<noteq> []"
  by (auto simp: page_strategy_def split: pyval.splits sum.splits if_splits)

text \<open>
  For an incident whose title is a string, the cascade of the Bolna and the Claude
  adapter returns at least one record, whatever the page request does.
\<close>

lemma terminal_fallback_with_title:
  assumes "dict_get_default incident ''title'' (PyStr []) = PyStr t"
    and "a = BolnaAdapter \<or> a = ClaudeAdapter"
  shows "\<exists>rs. process_incident_async ev a incident = Inr rs \<and> rs \<noteq> []"
proof -
  from assms obtain fs where fs: "extract_fallback_services a incident = Inr fs" "fs \<noteq> []"
    using bolna_fallback_nonempty claude_fallback_nonempty
    by (auto simp: BolnaAdapter_def ClaudeAdapter_def) blast+
  show ?thesis
  proof (cases "page_strategy ev a (dict_get_default incident ''link'' (PyStr []))")
    case None
    with fs show ?thesis
      by (simp add: process_incident_async_def Let_def format_incidents_def)
  next
    case (Some sp)
    with page_strategy_nonempty [OF Some] show ?thesis
      by (simp add: process_incident_async_def Let_def format_incidents_def)
  qed
qed

section \<open>Sentinel fields of a parsed item\<close>

text \<open>
  C10. The dictionary built for a feed item always has the keys \<open>title\<close>, \<open>link\<close>,
  \<open>pub_date\<close> and \<open>description\<close>; a missing element gives the string \<open>N/A\<close>, an
  element that is there gives its text (\<open>None\<close> when it has none). A link \<open>N/A\<close> and an
  empty link both switch strategy 2 off: the result is that of the embedded list or else
  of the fallback, and the incident page is not asked.
\<close>

theorem missing_elements_become_sentinel:
  "(\<forall>k \<in> set [''title'', ''link'', ''pub_date'', ''description'']. k \<in> dom (parse_item it))
   \<and> (title_elem it = None \<longrightarrow> dict_get (parse_item it) ''title'' = PyStr ''N/A'')
   \<and> (link_elem it = None \<longrightarrow> dict_get (parse_item it) ''link'' = PyStr ''N/A'')
   \<and> (pubDate_elem it = None \<longrightarrow> dict_get (parse_item it) ''pub_date'' = PyStr ''N/A'')
   \<and> (description_elem it = None \<longrightarrow> dict_get (parse_item it) ''description'' = PyStr ''N/A'')
   \<and> (title_elem it = Some e \<longrightarrow> dict_get (parse_item it) ''title'' = elem_value e)
   \<and> (link_elem it = Some e \<longrightarrow> dict_get (parse_item it) ''link'' = elem_value e)
   \<and> (pubDate_elem it = Some e \<longrightarrow> dict_get (parse_item it) ''pub_date'' = elem_value e)
   \<and> (description_elem it = Some e \<longrightarrow> dict_get (parse_item it) ''description'' = elem_value e)
   \<and> (dict_get_default incident ''link'' (PyStr []) = PyStr ''N/A''
        \<or> dict_get_default incident ''link'' (PyStr []) = PyStr [] \<longrightarrow>
        page_strategy ev a (dict_get_default incident ''link'' (PyStr [])) = None
        \<and> process_incident_async ev a incident
            = (let title = dict_get_default incident ''title'' (PyStr ''Unknown Incident'');
                   pub_date = dict_get_default incident ''pub_date'' (PyStr ''Unknown Time'');
                   s1 = extract_services_from_html (html_unescape ev)
                          (dict_get_default incident ''description'' (PyStr []))
               in if s1 \<noteq> [] then Inr (format_incidents a s1 title pub_date)
                  else (case extract_fallback_services a incident of
                          Inl err \<Rightarrow> Inl err
                        | Inr fs \<Rightarrow> Inr (format_incidents a fs title pub_date))))"
proof (intro conjI impI)
  show "\<forall>k \<in> set [''title'', ''link'', ''pub_date'', ''description'']. k \<in> dom (parse_item it)"
    by (simp add: parse_item_def)
next
  assume "dict_get_default incident ''link'' (PyStr []) = PyStr ''N/A''
        \<or> dict_get_default incident ''link'' (PyStr []) = PyStr []"
  then show off: "page_strategy ev a (dict_get_default incident ''link'' (PyStr [])) = None"
    by (auto simp: page_strategy_def)
  then show "process_incident_async ev a incident
            = (let title = dict_get_default incident ''title'' (PyStr ''Unknown Incident'');
                   pub_date = dict_get_default incident ''pub_date'' (PyStr ''Unknown Time'');
                   s1 = extract_services_from_html (html_unescape ev)
                          (dict_get_default incident ''description'' (PyStr []))
               in if s1 \<noteq> [] then Inr (format_incidents a s1 title pub_date)
                  else (case extract_fallback_services a incident of
                          Inl err \<Rightarrow> Inl err
                        | Inr fs \<Rightarrow> Inr (format_incidents a fs title pub_date)))"
    by (simp add: process_incident_async_def Let_def)
qed (simp_all add: parse_item_def dict_get_def)

theorem missing_elements_become_sentinel_witness:
  "dict_get (parse_item unlinked_item) ''link'' = PyStr ''N/A''
   \<and> dict_get (parse_item unlinked_item) ''pub_date'' = PyStr ''N/A''
   \<and> dict_get (parse_item unlinked_item) ''title'' = PyStr ''Twilio outage''
   \<and> ''description'' \<in> dom (parse_item unlinked_item)
   \<and> page_strategy online BolnaAdapter
        (dict_get_default (parse_item unlinked_item) ''link'' (PyStr [])) = None
   \<and> process_incident_async online BolnaAdapter (parse_item unlinked_item)
       = Inr [impact ''Bolna'' ''Twilio'' (PyStr ''N/A'') (PyStr ''Twilio outage'')]"
proof -
  note t = missing_elements_become_sentinel
      [of unlinked_item "Element (Some ''Twilio outage'')" "parse_item unlinked_item"
          online BolnaAdapter]
  have lk: "link_elem unlinked_item = None" and pd: "pubDate_elem unlinked_item = None"
    and ti: "title_elem unlinked_item = Some (Element (Some ''Twilio outage''))"
    by (simp_all add: unlinked_item_def)
  from t lk have l: "dict_get (parse_item unlinked_item) ''link'' = PyStr ''N/A''" by blast
  from t pd have p: "dict_get (parse_item unlinked_item) ''pub_date'' = PyStr ''N/A''" by blast
  from t ti have ti': "dict_get (parse_item unlinked_item) ''title''
      = elem_value (Element (Some ''Twilio outage''))" by blast
  from t have d: "''description'' \<in> dom (parse_item unlinked_item)" by simp
  have l': "dict_get_default (parse_item unlinked_item) ''link'' (PyStr []) = PyStr ''N/A''"
    and p': "dict_get_default (parse_item unlinked_item) ''pub_date'' (PyStr ''Unknown Time'')
      = PyStr ''N/A''"
    and t': "dict_get_default (parse_item unlinked_item) ''title'' (PyStr ''Unknown Incident'')
      = PyStr ''Twilio outage''"
    and d': "dict_get_default (parse_item unlinked_item) ''description'' (PyStr [])
      = PyStr ''Investigating''"
    by (simp_all add: parse_item_def unlinked_item_def dict_get_default_def elem_value_def)
  from t l' have off: "page_strategy online BolnaAdapter
        (dict_get_default (parse_item unlinked_item) ''link'' (PyStr [])) = None"
    and run: "process_incident_async online BolnaAdapter (parse_item unlinked_item)
      = (let title = dict_get_default (parse_item unlinked_item) ''title'' (PyStr ''Unknown Incident'');
             pub_date = dict_get_default (parse_item unlinked_item) ''pub_date'' (PyStr ''Unknown Time'');
             s1 = extract_services_from_html (html_unescape online)
                    (dict_get_default (parse_item unlinked_item) ''description'' (PyStr []))
         in if s1 \<noteq> [] then Inr (format_incidents BolnaAdapter s1 title pub_date)
            else (case extract_fallback_services BolnaAdapter (parse_item unlinked_item) of
                    Inl err \<Rightarrow> Inl err
                  | Inr fs \<Rightarrow> Inr (format_incidents BolnaAdapter fs title pub_date)))"
    by blast+
  have s1: "extract_services_from_html (html_unescape online) (PyStr ''Investigating'') = []"
    by (simp add: online_def plain_services)
  have fb: "extract_fallback_services BolnaAdapter (parse_item unlinked_item) = Inr [''Twilio'']"
    by (simp add: BolnaAdapter_def bolna_fallback_twilio)
  have fm: "format_incidents BolnaAdapter [''Twilio''] (PyStr ''Twilio outage'') (PyStr ''N/A'')
      = [impact ''Bolna'' ''Twilio'' (PyStr ''N/A'') (PyStr ''Twilio outage'')]"
    by (simp add: format_incidents_def format_service_def BolnaAdapter_def)
  from run have "process_incident_async online BolnaAdapter (parse_item unlinked_item)
       = Inr [impact ''Bolna'' ''Twilio'' (PyStr ''N/A'') (PyStr ''Twilio outage'')]"
    by (simp add: Let_def t' p' d' s1 fb fm)
  with l p ti' d off show ?thesis by (simp add: elem_value_def)
qed

section \<open>Identity of a feed item\<close>

lemma split_char_nonempty: "split_char sep s \<noteq> []"
  by (induction s) (auto split: list.splits)

lemma split_char_no_sep: "w \<in> set (split_char sep s) \<Longrightarrow> sep \<notin> set w"
proof (induction s arbitrary: w)
  case Nil
  then show ?case by simp
next
  case (Cons c cs)
  show ?case
  proof (cases "c = sep")
    case True
    with Cons show ?thesis by auto
  next
    case False
    obtain v rest where v: "split_char sep cs = v # rest"
      using split_char_nonempty [of sep cs] by (cases "split_char sep cs") auto
    with False Cons.prems have "w = c # v \<or> w \<in> set rest" by simp
    with Cons.IH v False show ?thesis by auto
  qed
qed

lemma split_char_join:
  "concat (map (\<lambda>w. w @ [sep]) (butlast (split_char sep s))) @ last (split_char sep s) = s"
proof (induction s)
  case Nil
  then show ?case by simp
next
  case (Cons c cs)
  obtain v rest where v: "split_char sep cs = v # rest"
    using split_char_nonempty [of sep cs] by (cases "split_char sep cs") auto
  show ?case
  proof (cases "c = sep")
    case True
    with Cons v show ?thesis by simp
  next
    case False
    with Cons v show ?thesis by (cases rest) simp_all
  qed
qed

text \<open>
  C4, as amended. For an item that has a \<open>title\<close> element: when the GUID has non-empty
  text and the piece after its last \<open>/\<close> is not empty, that piece is the id, whatever
  the link is; when there is no GUID with non-empty text, the link has non-empty text and
  the piece after its last \<open>/\<close> is not empty, that piece is the id; in every other case
  the id is the text of the title.
\<close>

theorem rss_identity_precedence:
  "(title_elem it = Some t \<and> nonempty_text (guid_elem it) = Some g \<and> last_segment g \<noteq> [] \<longrightarrow>
      dict_get (parse_item it) ''id'' = PyStr (last_segment g))
   \<and> (title_elem it = Some t \<and> nonempty_text (guid_elem it) = None
        \<and> nonempty_text (link_elem it) = Some l \<and> last_segment l \<noteq> [] \<longrightarrow>
      dict_get (parse_item it) ''id'' = PyStr (last_segment l))
   \<and> (title_elem it = Some t
        \<and> ((nonempty_text (guid_elem it) = Some g \<and> last_segment g = [])
           \<or> (nonempty_text (guid_elem it) = None \<and> nonempty_text (link_elem it) = Some l
               \<and> last_segment l = [])
           \<or> (nonempty_text (guid_elem it) = None \<and> nonempty_text (link_elem it) = None)) \<longrightarrow>
      dict_get (parse_item it) ''id'' = elem_value t)"
  by (auto simp: parse_item_def dict_get_def incident_id_of_def)

lemma segment_of_slash_guid: "last_segment ''https://status.example.com/incidents/42/'' = []"
  by code_simp

lemma segment_of_link: "last_segment ''https://status.example.com/incidents/42'' = ''42''"
  by code_simp

lemma segment_of_guid: "last_segment ''tag:status.example.com,2025:/g-17'' = ''g-17''"
  by code_simp

theorem rss_identity_precedence_witness:
  "dict_get (parse_item guid_item) ''id'' = PyStr ''g-17''
   \<and> dict_get (parse_item (guid_item\<lparr>guid_elem := None\<rparr>)) ''id'' = PyStr ''42''
   \<and> dict_get (parse_item (guid_item\<lparr>guid_elem := None, link_elem := None\<rparr>)) ''id''
       = PyStr ''Elevated errors''"
proof -
  let ?t = "Element (Some ''Elevated errors'')"
  have g: "title_elem guid_item = Some ?t"
      "nonempty_text (guid_elem guid_item) = Some ''tag:status.example.com,2025:/g-17''"
    by (simp_all add: guid_item_def nonempty_text_def)
  have l: "title_elem (guid_item\<lparr>guid_elem := None\<rparr>) = Some ?t"
      "nonempty_text (guid_elem (guid_item\<lparr>guid_elem := None\<rparr>)) = None"
      "nonempty_text (link_elem (guid_item\<lparr>guid_elem := None\<rparr>))
         = Some ''https://status.example.com/incidents/42''"
    by (simp_all add: guid_item_def nonempty_text_def)
  have n: "title_elem (guid_item\<lparr>guid_elem := None, link_elem := None\<rparr>) = Some ?t"
      "nonempty_text (guid_elem (guid_item\<lparr>guid_elem := None, link_elem := None\<rparr>)) = None"
      "nonempty_text (link_elem (guid_item\<lparr>guid_elem := None, link_elem := None\<rparr>)) = None"
    by (simp_all add: guid_item_def nonempty_text_def)
  have "dict_get (parse_item guid_item) ''id''
      = PyStr (last_segment ''tag:status.example.com,2025:/g-17'')"
    using rss_identity_precedence [of guid_item ?t "''tag:status.example.com,2025:/g-17''",
        THEN conjunct1] g
    by (simp add: segment_of_guid)
  moreover have "dict_get (parse_item (guid_item\<lparr>guid_elem := None\<rparr>)) ''id''
      = PyStr (last_segment ''https://status.example.com/incidents/42'')"
    using rss_identity_precedence [of "guid_item\<lparr>guid_elem := None\<rparr>" ?t _
        "''https://status.example.com/incidents/42''", THEN conjunct2, THEN conjunct1] l
    by (simp add: segment_of_link)
  moreover have "dict_get (parse_item (guid_item\<lparr>guid_elem := None, link_elem := None\<rparr>)) ''id''
      = elem_value ?t"
    using rss_identity_precedence [of "guid_item\<lparr>guid_elem := None, link_elem := None\<rparr>" ?t,
        THEN conjunct2, THEN conjunct2] n
    by simp
  ultimately show ?thesis by (simp add: segment_of_guid segment_of_link elem_value_def)
qed

text \<open>
  C4 as stated fails on a GUID that ends in \<open>/\<close>: the GUID has non-empty text, the piece
  after its last \<open>/\<close> is empty, and the id is the title, not a value taken from the GUID.
\<close>

theorem rss_identity_precedence_counterexample:
  "nonempty_text (guid_elem slash_item) = Some ''https://status.example.com/incidents/42/''
   \<and> dict_get (parse_item slash_item) ''id'' = PyStr ''Elevated errors''
   \<and> dict_get (parse_item slash_item) ''id''
       \<noteq> PyStr (last_segment ''https://status.example.com/incidents/42/'')"
  by (simp add: parse_item_def dict_get_def incident_id_of_def slash_item_def nonempty_text_def
      segment_of_slash_guid elem_value_def)

text \<open>
  An item without a \<open>title\<close> element gets the id \<open>unknown\<close> even when it has a GUID: the
  conditional expression encloses the \<open>or\<close>.
\<close>

lemma rss_identity_without_title:
  "nonempty_text (guid_elem headless_item) = Some ''tag:status.example.com,2025:/g-17''
   \<and> dict_get (parse_item headless_item) ''id'' = PyStr ''unknown''"
  by (simp add: parse_item_def dict_get_def headless_item_def nonempty_text_def)

section \<open>Rendering of time stamps\<close>

declare decimal.simps [simp del]

lemma digit_table: "list_all (\<lambda>k. digit_of (''0123456789'' ! k) = Some k) [0..<10]"
  by code_simp

lemma digit_of_digit_char: "digit_of (digit_char k) = Some (k mod 10)"
proof -
  have "k mod 10 \<in> set [0..<10]" by simp
  with digit_table show ?thesis
    unfolding digit_char_def list_all_iff by blast
qed

lemma number_of_two: "n < 100 \<Longrightarrow> number_of 0 (two_digits n) = Some n"
  by (simp add: two_digits_def digit_of_digit_char)

lemma four_digit_value:
  "1000 * (n div 1000) + 100 * (n div 100 mod 10) + 10 * (n div 10 mod 10) + n mod 10 = (n::nat)"
proof -
  have a: "n mod 1000 = 100 * (n div 100 mod 10) + n mod 100"
    using mod_mult2_eq [of n 100 10] by simp
  have b: "n mod 100 = 10 * (n div 10 mod 10) + n mod 10"
    using mod_mult2_eq [of n 10 10] by simp
  have c: "n = 1000 * (n div 1000) + n mod 1000" by simp
  from a b c show ?thesis by linarith
qed

lemma number_of_four: "n < 10000 \<Longrightarrow> number_of 0 (four_digits n) = Some n"
  by (simp add: four_digits_def digit_of_digit_char four_digit_value)

lemma decimal_four: "1000 \<le> n \<Longrightarrow> n < 10000 \<Longrightarrow> decimal n = four_digits n"
proof -
  assume a: "1000 \<le> n" "n < 10000"
  then have "\<not> n < 10" "\<not> n div 10 < 10" "\<not> n div 10 div 10 < 10" "n div 10 div 10 div 10 < 10"
    by arith+
  then have "decimal n = [digit_char (n div 10 div 10 div 10), digit_char (n div 10 div 10),
      digit_char (n div 10), digit_char n]"
    by (simp add: decimal.simps [of n] decimal.simps [of "n div 10"]
        decimal.simps [of "n div 10 div 10"] decimal.simps [of "n div 10 div 10 div 10"])
  moreover have "n div 10 div 10 div 10 = n div 1000" "n div 10 div 10 = n div 100"
    by (simp_all add: div_mult2_eq [symmetric])
  ultimately show ?thesis by (simp add: four_digits_def)
qed


lemma strftime_four_digit_year:
  assumes "1000 \<le> dt_year d" and "dt_year d \<le> 9999"
  shows "strftime d
     = four_digits (dt_year d) @ CHR ''-'' # two_digits (dt_month d) @ CHR ''-''
         # two_digits (dt_day d) @ CHR '' '' # two_digits (dt_hour d) @ CHR '':''
         # two_digits (dt_minute d) @ CHR '':'' # two_digits (dt_second d)"
  using assms by (simp add: strftime_def decimal_four)

lemma replace_Z_append: "replace_Z (s @ t) = replace_Z s @ replace_Z t"
  by (simp add: replace_Z_def)

lemma replace_Z_without_Z: "CHR ''Z'' \<notin> set s \<Longrightarrow> replace_Z s = s"
  by (induction s) (auto simp: replace_Z_def)

lemma rendered_fields:
  assumes "datetime_ok d" and "1000 \<le> dt_year d"
  shows "length (strftime d) = 19
     \<and> strftime d ! 4 = CHR ''-'' \<and> strftime d ! 7 = CHR ''-'' \<and> strftime d ! 10 = CHR '' ''
     \<and> strftime d ! 13 = CHR '':'' \<and> strftime d ! 16 = CHR '':''
     \<and> number_of 0 (take 4 (strftime d)) = Some (dt_year d)
     \<and> number_of 0 (take 2 (drop 5 (strftime d))) = Some (dt_month d)
     \<and> number_of 0 (take 2 (drop 8 (strftime d))) = Some (dt_day d)
     \<and> number_of 0 (take 2 (drop 11 (strftime d))) = Some (dt_hour d)
     \<and> number_of 0 (take 2 (drop 14 (strftime d))) = Some (dt_minute d)
     \<and> number_of 0 (take 2 (drop 17 (strftime d))) = Some (dt_second d)"
proof -
  from assms(1) have y: "dt_year d \<le> 9999" and y': "dt_year d < 10000"
    and m: "dt_month d < 100" and dy: "dt_day d < 100" and h: "dt_hour d < 100"
    and mi: "dt_minute d < 100" and se: "dt_second d < 100"
    by (simp_all add: datetime_ok_def)
  obtain y1 y2 y3 y4 where yy: "four_digits (dt_year d) = [y1, y2, y3, y4]"
    by (simp add: four_digits_def)
  obtain m1 m2 where mm: "two_digits (dt_month d) = [m1, m2]" by (simp add: two_digits_def)
  obtain d1 d2 where dd: "two_digits (dt_day d) = [d1, d2]" by (simp add: two_digits_def)
  obtain h1 h2 where hh: "two_digits (dt_hour d) = [h1, h2]" by (simp add: two_digits_def)
  obtain n1 n2 where nn: "two_digits (dt_minute d) = [n1, n2]" by (simp add: two_digits_def)
  obtain s1 s2 where ss: "two_digits (dt_second d) = [s1, s2]" by (simp add: two_digits_def)
  have out: "strftime d = [y1, y2, y3, y4, CHR ''-'', m1, m2, CHR ''-'', d1, d2, CHR '' '',
      h1, h2, CHR '':'', n1, n2, CHR '':'', s1, s2]"
    using strftime_four_digit_year [OF assms(2) y] by (simp add: yy mm dd hh nn ss)
  have t1: "take 4 (strftime d) = four_digits (dt_year d)" by (simp add: out yy)
  have t2: "take 2 (drop 5 (strftime d)) = two_digits (dt_month d)" by (simp add: out mm)
  have t3: "take 2 (drop 8 (strftime d)) = two_digits (dt_day d)" by (simp add: out dd)
  have t4: "take 2 (drop 11 (strftime d)) = two_digits (dt_hour d)" by (simp add: out hh)
  have t5: "take 2 (drop 14 (strftime d)) = two_digits (dt_minute d)" by (simp add: out nn)
  have t6: "take 2 (drop 17 (strftime d)) = two_digits (dt_second d)" by (simp add: out ss)
  have l: "length (strftime d) = 19" "strftime d ! 4 = CHR ''-''" "strftime d ! 7 = CHR ''-''"
    "strftime d ! 10 = CHR '' ''" "strftime d ! 13 = CHR '':''" "strftime d ! 16 = CHR '':''"
    by (simp_all add: out)
  have v: "number_of 0 (take 4 (strftime d)) = Some (dt_year d)"
    "number_of 0 (take 2 (drop 5 (strftime d))) = Some (dt_month d)"
    "number_of 0 (take 2 (drop 8 (strftime d))) = Some (dt_day d)"
    "number_of 0 (take 2 (drop 11 (strftime d))) = Some (dt_hour d)"
    "number_of 0 (take 2 (drop 14 (strftime d))) = Some (dt_minute d)"
    "number_of 0 (take 2 (drop 17 (strftime d))) = Some (dt_second d)"
    unfolding t1 t2 t3 t4 t5 t6
    by (rule number_of_four [OF y'] number_of_two [OF m] number_of_two [OF dy]
        number_of_two [OF h] number_of_two [OF mi] number_of_two [OF se])+
  show ?thesis by (intro conjI) (fact l v)+
qed


text \<open>
  C9, as amended. A time stamp that is a string is parsed after every \<open>Z\<close> has been
  replaced by \<open>+00:00\<close>, so that a trailing \<open>Z\<close> reaches the parser as the UTC offset.
  When the parser raises, the result is the original string. The result depends on the
  parser only through its answer for that one string. When the parser gives a
  \<open>datetime\<close> whose year has four digits, the result has the form
  \<open>YYYY-MM-DD HH:MM:SS\<close>: nineteen characters, the separators in their places, and the
  six groups of digits denote the year, month, day, hour, minute and second of the parsed
  value. The function returns a string in every case. The example of the specification
  holds for every parser that reads \<open>2025-11-03T14:32:00+00:00\<close> as that date and time.
\<close>

theorem timestamp_rendering:
  "(CHR ''Z'' \<notin> set s \<longrightarrow> replace_Z (s @ ''Z'') = s @ ''+00:00'')
   \<and> (fromisoformat (replace_Z s) = None \<longrightarrow> format_timestamp fromisoformat (PyStr s) = s)
   \<and> (fromisoformat (replace_Z s) = other (replace_Z s) \<longrightarrow>
        format_timestamp fromisoformat (PyStr s) = format_timestamp other (PyStr s))
   \<and> (fromisoformat (replace_Z s) = Some d \<and> datetime_ok d \<and> 1000 \<le> dt_year d \<longrightarrow>
        length (format_timestamp fromisoformat (PyStr s)) = 19
        \<and> format_timestamp fromisoformat (PyStr s) ! 4 = CHR ''-''
        \<and> format_timestamp fromisoformat (PyStr s) ! 7 = CHR ''-''
        \<and> format_timestamp fromisoformat (PyStr s) ! 10 = CHR '' ''
        \<and> format_timestamp fromisoformat (PyStr s) ! 13 = CHR '':''
        \<and> format_timestamp fromisoformat (PyStr s) ! 16 = CHR '':''
        \<and> number_of 0 (take 4 (format_timestamp fromisoformat (PyStr s))) = Some (dt_year d)
        \<and> number_of 0 (take 2 (drop 5 (format_timestamp fromisoformat (PyStr s))))
            = Some (dt_month d)
        \<and> number_of 0 (take 2 (drop 8 (format_timestamp fromisoformat (PyStr s))))
            = Some (dt_day d)
        \<and> number_of 0 (take 2 (drop 11 (format_timestamp fromisoformat (PyStr s))))
            = Some (dt_hour d)
        \<and> number_of 0 (take 2 (drop 14 (format_timestamp fromisoformat (PyStr s))))
            = Some (dt_minute d)
        \<and> number_of 0 (take 2 (drop 17 (format_timestamp fromisoformat (PyStr s))))
            = Some (dt_second d))
   \<and> (fromisoformat ''2025-11-03T14:32:00+00:00''
          = Some \<lparr>dt_year = 2025, dt_month = 11, dt_day = 3, dt_hour = 14, dt_minute = 32,
                  dt_second = 0\<rparr> \<longrightarrow>
        format_timestamp fromisoformat (PyStr ''2025-11-03T14:32:00Z'') = ''2025-11-03 14:32:00'')"
proof -
  have z: "CHR ''Z'' \<notin> set s \<longrightarrow> replace_Z (s @ ''Z'') = s @ ''+00:00''"
  proof
    assume "CHR ''Z'' \<notin> set s"
    then have "replace_Z s = s" by (rule replace_Z_without_Z)
    moreover have "replace_Z ''Z'' = ''+00:00''" by (simp add: replace_Z_def)
    ultimately show "replace_Z (s @ ''Z'') = s @ ''+00:00''" by (simp add: replace_Z_append)
  qed
  have pass: "fromisoformat (replace_Z s) = None \<longrightarrow> format_timestamp fromisoformat (PyStr s) = s"
    by (simp add: format_timestamp_def)
  have once: "fromisoformat (replace_Z s) = other (replace_Z s) \<longrightarrow>
        format_timestamp fromisoformat (PyStr s) = format_timestamp other (PyStr s)"
    by (simp add: format_timestamp_def)
  have shape: "fromisoformat (replace_Z s) = Some d \<and> datetime_ok d \<and> 1000 \<le> dt_year d \<longrightarrow>
        length (format_timestamp fromisoformat (PyStr s)) = 19
        \<and> format_timestamp fromisoformat (PyStr s) ! 4 = CHR ''-''
        \<and> format_timestamp fromisoformat (PyStr s) ! 7 = CHR ''-''
        \<and> format_timestamp fromisoformat (PyStr s) ! 10 = CHR '' ''
        \<and> format_timestamp fromisoformat (PyStr s) ! 13 = CHR '':''
        \<and> format_timestamp fromisoformat (PyStr s) ! 16 = CHR '':''
        \<and> number_of 0 (take 4 (format_timestamp fromisoformat (PyStr s))) = Some (dt_year d)
        \<and> number_of 0 (take 2 (drop 5 (format_timestamp fromisoformat (PyStr s))))
            = Some (dt_month d)
        \<and> number_of 0 (take 2 (drop 8 (format_timestamp fromisoformat (PyStr s))))
            = Some (dt_day d)
        \<and> number_of 0 (take 2 (drop 11 (format_timestamp fromisoformat (PyStr s))))
            = Some (dt_hour d)
        \<and> number_of 0 (take 2 (drop 14 (format_timestamp fromisoformat (PyStr s))))
            = Some (dt_minute d)
        \<and> number_of 0 (take 2 (drop 17 (format_timestamp fromisoformat (PyStr s))))
            = Some (dt_second d)"
  proof
    assume h: "fromisoformat (replace_Z s) = Some d \<and> datetime_ok d \<and> 1000 \<le> dt_year d"
    then have e: "format_timestamp fromisoformat (PyStr s) = strftime d"
      by (simp add: format_timestamp_def)
    from h have "datetime_ok d" and "1000 \<le> dt_year d" by simp_all
    from rendered_fields [OF this]
    show "length (format_timestamp fromisoformat (PyStr s)) = 19
        \<and> format_timestamp fromisoformat (PyStr s) ! 4 = CHR ''-''
        \<and> format_timestamp fromisoformat (PyStr s) ! 7 = CHR ''-''
        \<and> format_timestamp fromisoformat (PyStr s) ! 10 = CHR '' ''
        \<and> format_timestamp fromisoformat (PyStr s) ! 13 = CHR '':''
        \<and> format_timestamp fromisoformat (PyStr s) ! 16 = CHR '':''
        \<and> number_of 0 (take 4 (format_timestamp fromisoformat (PyStr s))) = Some (dt_year d)
        \<and> number_of 0 (take 2 (drop 5 (format_timestamp fromisoformat (PyStr s))))
            = Some (dt_month d)
        \<and> number_of 0 (take 2 (drop 8 (format_timestamp fromisoformat (PyStr s))))
            = Some (dt_day d)
        \<and> number_of 0 (take 2 (drop 11 (format_timestamp fromisoformat (PyStr s))))
            = Some (dt_hour d)
        \<and> number_of 0 (take 2 (drop 14 (format_timestamp fromisoformat (PyStr s))))
            = Some (dt_minute d)
        \<and> number_of 0 (take 2 (drop 17 (format_timestamp fromisoformat (PyStr s))))
            = Some (dt_second d)"
      unfolding e .
  qed
  have example: "fromisoformat ''2025-11-03T14:32:00+00:00''
          = Some \<lparr>dt_year = 2025, dt_month = 11, dt_day = 3, dt_hour = 14, dt_minute = 32,
                  dt_second = 0\<rparr> \<longrightarrow>
        format_timestamp fromisoformat (PyStr ''2025-11-03T14:32:00Z'') = ''2025-11-03 14:32:00''"
  proof
    assume p: "fromisoformat ''2025-11-03T14:32:00+00:00''
          = Some \<lparr>dt_year = 2025, dt_month = 11, dt_day = 3, dt_hour = 14, dt_minute = 32,
                  dt_second = 0\<rparr>"
    have "replace_Z ''2025-11-03T14:32:00Z'' = ''2025-11-03T14:32:00+00:00''"
      by (simp add: replace_Z_def)
    moreover have "strftime \<lparr>dt_year = 2025, dt_month = 11, dt_day = 3, dt_hour = 14,
        dt_minute = 32, dt_second = 0\<rparr> = ''2025-11-03 14:32:00''"
      by code_simp
    ultimately show "format_timestamp fromisoformat (PyStr ''2025-11-03T14:32:00Z'')
        = ''2025-11-03 14:32:00''"
      using p by (simp add: format_timestamp_def)
  qed
  show ?thesis by (intro conjI) (fact z pass once shape example)+
qed

text \<open>
  In the examples the parser is given by the answers of \<open>datetime.fromisoformat\<close> for
  the strings that are asked about: it reads \<open>2025-11-03T14:32:00+00:00\<close> and
  \<open>1999-12-31T23:59:59+00:00\<close> as those dates and times, and it raises on the RSS date
  \<open>Mon, 03 Nov 2025 14:32:00 +0000\<close>.
\<close>

theorem timestamp_rendering_witness:
  "format_timestamp
       [''2025-11-03T14:32:00+00:00'' \<mapsto>
          \<lparr>dt_year = 2025, dt_month = 11, dt_day = 3, dt_hour = 14, dt_minute = 32,
           dt_second = 0\<rparr>]
       (PyStr ''2025-11-03T14:32:00Z'') = ''2025-11-03 14:32:00''
   \<and> format_timestamp
       [''2025-11-03T14:32:00+00:00'' \<mapsto>
          \<lparr>dt_year = 2025, dt_month = 11, dt_day = 3, dt_hour = 14, dt_minute = 32,
           dt_second = 0\<rparr>]
       (PyStr ''Mon, 03 Nov 2025 14:32:00 +0000'') = ''Mon, 03 Nov 2025 14:32:00 +0000''
   \<and> replace_Z (''2025-11-03T14:32:00'' @ ''Z'') = ''2025-11-03T14:32:00'' @ ''+00:00''
   \<and> format_timestamp
       [''1999-12-31T23:59:59+00:00'' \<mapsto>
          \<lparr>dt_year = 1999, dt_month = 12, dt_day = 31, dt_hour = 23, dt_minute = 59,
           dt_second = 59\<rparr>]
       (PyStr ''1999-12-31T23:59:59Z'') = ''1999-12-31 23:59:59''
   \<and> number_of 0 (take 2 (drop 5 (format_timestamp
       [''1999-12-31T23:59:59+00:00'' \<mapsto>
          \<lparr>dt_year = 1999, dt_month = 12, dt_day = 31, dt_hour = 23, dt_minute = 59,
           dt_second = 59\<rparr>]
       (PyStr ''1999-12-31T23:59:59Z'')))) = Some 12"
proof -
  let ?d1 = "\<lparr>dt_year = 2025, dt_month = 11, dt_day = 3, dt_hour = 14, dt_minute = 32,
           dt_second = 0\<rparr>"
  let ?d2 = "\<lparr>dt_year = 1999, dt_month = 12, dt_day = 31, dt_hour = 23, dt_minute = 59,
           dt_second = 59\<rparr>"
  let ?p1 = "[''2025-11-03T14:32:00+00:00'' \<mapsto> ?d1]"
  let ?p2 = "[''1999-12-31T23:59:59+00:00'' \<mapsto> ?d2]"
  have a1: "?p1 ''2025-11-03T14:32:00+00:00'' = Some ?d1" by simp
  from timestamp_rendering [of _ ?p1, THEN conjunct2, THEN conjunct2, THEN conjunct2,
      THEN conjunct2, rule_format, OF a1]
  have ex: "format_timestamp ?p1 (PyStr ''2025-11-03T14:32:00Z'') = ''2025-11-03 14:32:00''" .
  have rz: "replace_Z ''Mon, 03 Nov 2025 14:32:00 +0000'' = ''Mon, 03 Nov 2025 14:32:00 +0000''"
    by (simp add: replace_Z_def)
  have a2: "?p1 (replace_Z ''Mon, 03 Nov 2025 14:32:00 +0000'') = None"
    unfolding rz by simp
  from timestamp_rendering [of "''Mon, 03 Nov 2025 14:32:00 +0000''" ?p1,
      THEN conjunct2, THEN conjunct1, rule_format, OF a2]
  have pass: "format_timestamp ?p1 (PyStr ''Mon, 03 Nov 2025 14:32:00 +0000'')
       = ''Mon, 03 Nov 2025 14:32:00 +0000''" .
  have nz: "CHR ''Z'' \<notin> set ''2025-11-03T14:32:00''" by simp
  from timestamp_rendering [of "''2025-11-03T14:32:00''", THEN conjunct1, rule_format, OF nz]
  have z: "replace_Z (''2025-11-03T14:32:00'' @ ''Z'') = ''2025-11-03T14:32:00'' @ ''+00:00''" .
  have r2: "replace_Z ''1999-12-31T23:59:59Z'' = ''1999-12-31T23:59:59+00:00''"
    by (simp add: replace_Z_def)
  have a3: "?p2 (replace_Z ''1999-12-31T23:59:59Z'') = Some ?d2 \<and> datetime_ok ?d2
      \<and> 1000 \<le> dt_year ?d2"
    unfolding r2 by (simp add: datetime_ok_def)
  from timestamp_rendering [of "''1999-12-31T23:59:59Z''" ?p2 _ ?d2,
      THEN conjunct2, THEN conjunct2, THEN conjunct2, THEN conjunct1, rule_format, OF a3]
  have month: "number_of 0 (take 2 (drop 5 (format_timestamp ?p2 (PyStr ''1999-12-31T23:59:59Z''))))
      = Some (dt_month ?d2)"
    by blast
  have "strftime ?d2 = ''1999-12-31 23:59:59''" by code_simp
  then have out: "format_timestamp ?p2 (PyStr ''1999-12-31T23:59:59Z'') = ''1999-12-31 23:59:59''"
    by (simp add: format_timestamp_def r2)
  from month have month': "number_of 0 (take 2 (drop 5 (format_timestamp ?p2
      (PyStr ''1999-12-31T23:59:59Z'')))) = Some 12"
    by simp
  show ?thesis by (intro conjI) (fact ex pass z out month')+
qed

text \<open>
  C9 as stated fails for a year below 1000: \<open>0005-01-02T03:04:05Z\<close> is parsed, and the
  result has the year on one character, not the form \<open>YYYY-MM-DD HH:MM:SS\<close>.
\<close>

theorem timestamp_rendering_counterexample:
  "format_timestamp
       [''0005-01-02T03:04:05+00:00'' \<mapsto>
          \<lparr>dt_year = 5, dt_month = 1, dt_day = 2, dt_hour = 3, dt_minute = 4, dt_second = 5\<rparr>]
       (PyStr ''0005-01-02T03:04:05Z'') = ''5-01-02 03:04:05''
   \<and> length (format_timestamp
       [''0005-01-02T03:04:05+00:00'' \<mapsto>
          \<lparr>dt_year = 5, dt_month = 1, dt_day = 2, dt_hour = 3, dt_minute = 4, dt_second = 5\<rparr>]
       (PyStr ''0005-01-02T03:04:05Z'')) \<noteq> 19"
proof -
  have r: "replace_Z ''0005-01-02T03:04:05Z'' = ''0005-01-02T03:04:05+00:00''"
    by (simp add: replace_Z_def)
  have "strftime \<lparr>dt_year = 5, dt_month = 1, dt_day = 2, dt_hour = 3, dt_minute = 4,
      dt_second = 5\<rparr> = ''5-01-02 03:04:05''"
    by code_simp
  then have "format_timestamp
       [''0005-01-02T03:04:05+00:00'' \<mapsto>
          \<lparr>dt_year = 5, dt_month = 1, dt_day = 2, dt_hour = 3, dt_minute = 4, dt_second = 5\<rparr>]
       (PyStr ''0005-01-02T03:04:05Z'') = ''5-01-02 03:04:05''"
    by (simp add: format_timestamp_def r)
  then show ?thesis by simp
qed

text \<open>The whole line that \<open>format_incident\<close> prints for a record.\<close>

lemma format_incident_example:
  "format_incident
       [''2025-11-03T14:32:00+00:00'' \<mapsto>
          \<lparr>dt_year = 2025, dt_month = 11, dt_day = 3, dt_hour = 14, dt_minute = 32,
           dt_second = 0\<rparr>]
       (impact ''API'' ''Chat Completions'' (PyStr ''2025-11-03T14:32:00Z'')
          (PyStr ''Degraded performance''))
     = ''[2025-11-03 14:32:00] Product: API - Chat Completions'' @ [CHR 0x0A]
       @ ''Status: Degraded performance'' @ [CHR 0x0A]"
proof -
  have "replace_Z ''2025-11-03T14:32:00Z'' = ''2025-11-03T14:32:00+00:00''"
    by (simp add: replace_Z_def)
  moreover have "strftime \<lparr>dt_year = 2025, dt_month = 11, dt_day = 3, dt_hour = 14,
      dt_minute = 32, dt_second = 0\<rparr> = ''2025-11-03 14:32:00''"
    by code_simp
  ultimately show ?thesis
    by (simp add: format_incident_def format_timestamp_def impact_def dict_get_def
        dict_get_default_def py_str_def)
qed

section \<open>The embedded list keeps duplicates\<close>

text \<open>
  C5. The code departs from the claim on a description that lists one component twice:
  the names come out trimmed and in document order, but both occurrences are returned
  (\<open>html.unescape\<close> leaves this text, which has no \<open>&\<close>, as it is).
\<close>

theorem embedded_list_keeps_duplicates:
  "extract_services_from_html (\<lambda>s. s)
       (PyStr ''<ul><li>API (Degraded)</li><li>Chat  (Down)</li><li>API (Degraded)</li></ul>'')
     = [''API'', ''Chat'', ''API'']"
  by code_simp

end
